theory Spec2Isabelle
  imports Main "HOL-Library.Extended_Nat" "HOL-Library.Sublist"
begin

section \<open>Strings of the JavaScript runtime\<close>

text \<open>
  The report parser (\<^verbatim>\<open>lib/report-parser.ts\<close>) is TypeScript. A JavaScript string is a
  sequence of 16-bit code units, and \<^verbatim>\<open>length\<close>, \<^verbatim>\<open>substring\<close> and the regular
  expressions of the parser all count code units. A code unit is modelled as a natural
  number, so that the bullet U+2022 and the Unicode white space are single elements.
  \<open>js\<close> turns an ASCII literal into such a string.
\<close>

type_synonym jschar = nat
type_synonym jsstring = "nat list"

definition js :: "string \<Rightarrow> jsstring" where
  "js s = map of_char s"

definition NL :: jschar where "NL = 10"
definition CR :: jschar where "CR = 13"
definition BULLET :: jschar where "BULLET = 8226"

text \<open>\<^verbatim>\<open>\s\<close> and \<^verbatim>\<open>trim()\<close>: the WhiteSpace and LineTerminator code points of ECMAScript.\<close>

definition isWhiteSpace :: "jschar \<Rightarrow> bool" where
  "isWhiteSpace c =
     (c = 9 \<or> c = 10 \<or> c = 11 \<or> c = 12 \<or> c = 13 \<or> c = 32 \<or> c = 160 \<or> c = 5760
      \<or> (8192 \<le> c \<and> c \<le> 8202) \<or> c = 8232 \<or> c = 8233 \<or> c = 8239 \<or> c = 8287
      \<or> c = 12288 \<or> c = 65279)"

text \<open>The dot of a regular expression without the \<^verbatim>\<open>s\<close> flag: anything but a line terminator.\<close>

definition isLineTerminator :: "jschar \<Rightarrow> bool" where
  "isLineTerminator c = (c = 10 \<or> c = 13 \<or> c = 8232 \<or> c = 8233)"

definition dot :: "jschar \<Rightarrow> bool" where
  "dot c = (\<not> isLineTerminator c)"

definition anyChar :: "jschar \<Rightarrow> bool" where
  "anyChar c = True"

definition isDigit :: "jschar \<Rightarrow> bool" where
  "isDigit c = (48 \<le> c \<and> c \<le> 57)"

definition oneOf :: "jsstring \<Rightarrow> jschar \<Rightarrow> bool" where
  "oneOf cs c = (c \<in> set cs)"

definition noneOf :: "jsstring \<Rightarrow> jschar \<Rightarrow> bool" where
  "noneOf cs c = (c \<notin> set cs)"

definition orWhiteSpace :: "jsstring \<Rightarrow> jschar \<Rightarrow> bool" where
  "orWhiteSpace cs c = (c \<in> set cs \<or> isWhiteSpace c)"

text \<open>
  \<^verbatim>\<open>toLowerCase()\<close>. On a string whose code units are all below 256 the runtime lowers
  every code unit by itself: A to Z, and the Latin-1 capitals U+00C0 to U+00DE without
  the multiplication sign, move up by 32, and the others stay. On any other string the
  result follows the case tables of Unicode, which work on code points, depend on the
  context (the final sigma) and can change the length (U+0130 gives two code units).
  The model does not carry these tables: the lowering of such strings is a parameter
  \<open>lc\<close> of every function that lowers a string, and what is proved holds for every
  \<open>lc\<close>, so for the one of the runtime.
\<close>

type_synonym lowering = "jsstring \<Rightarrow> jsstring"

definition toLowerChar :: "jschar \<Rightarrow> jschar" where
  "toLowerChar c =
     (if 65 \<le> c \<and> c \<le> 90 then c + 32
      else if 192 \<le> c \<and> c \<le> 222 \<and> c \<noteq> 215 then c + 32
      else c)"

definition isLatin1 :: "jsstring \<Rightarrow> bool" where
  "isLatin1 s = list_all (\<lambda>c. c < 256) s"

definition toLowerCase :: "lowering \<Rightarrow> jsstring \<Rightarrow> jsstring" where
  "toLowerCase lc s = (if isLatin1 s then map toLowerChar s else lc s)"

definition trim :: "jsstring \<Rightarrow> jsstring" where
  "trim s = rev (dropWhile isWhiteSpace (rev (dropWhile isWhiteSpace s)))"

text \<open>\<^verbatim>\<open>s.substring(a, b)\<close>: both ends are clamped to the length and swapped when \<open>b < a\<close>.\<close>

definition substring :: "nat \<Rightarrow> nat \<Rightarrow> jsstring \<Rightarrow> jsstring" where
  "substring a b s =
     (let a' = min a (length s); b' = min b (length s)
      in take (max a' b' - min a' b') (drop (min a' b') s))"

fun startsWith :: "jsstring \<Rightarrow> jsstring \<Rightarrow> bool" where
  "startsWith s [] = True"
| "startsWith [] (p # ps) = False"
| "startsWith (c # s) (p # ps) = (c = p \<and> startsWith s ps)"

text \<open>\<^verbatim>\<open>s.includes(p)\<close>.\<close>

fun includesStr :: "jsstring \<Rightarrow> jsstring \<Rightarrow> bool" where
  "includesStr [] p = startsWith [] p"
| "includesStr (c # s) p = (startsWith (c # s) p \<or> includesStr s p)"

text \<open>\<^verbatim>\<open>s.split(sep)\<close> for a separator of one code unit: never the empty list.\<close>

fun split :: "jschar \<Rightarrow> jsstring \<Rightarrow> jsstring list" where
  "split sep [] = [[]]"
| "split sep (c # s) =
     (if c = sep then [] # split sep s
      else (case split sep s of [] \<Rightarrow> [[c]] | l # ls \<Rightarrow> (c # l) # ls))"

text \<open>
  \<^verbatim>\<open>Number(s)\<close> on a run of decimal digits, and the decimal rendering of a natural
  number (\<^verbatim>\<open>toString()\<close>, template literals). The parser applies \<^verbatim>\<open>Number\<close> only to the
  digit runs captured by the timestamp expression.
\<close>

definition Number :: "jsstring \<Rightarrow> nat" where
  "Number s = foldl (\<lambda>acc c. 10 * acc + (c - 48)) 0 s"

fun toString :: "nat \<Rightarrow> jsstring" where
  "toString n = (if n < 10 then [48 + n] else toString (n div 10) @ [48 + n mod 10])"

definition padStart :: "nat \<Rightarrow> jschar \<Rightarrow> jsstring \<Rightarrow> jsstring" where
  "padStart n c s = replicate (n - length s) c @ s"

text \<open>\<^verbatim>\<open>s.lastIndexOf(c, pos)\<close> for one code unit: the last index \<open>\<le> pos\<close> holding \<open>c\<close>, or \<open>-1\<close>.\<close>

fun lastIndexLoop :: "jschar \<Rightarrow> nat \<Rightarrow> nat \<Rightarrow> jsstring \<Rightarrow> int \<Rightarrow> int" where
  "lastIndexLoop c pos i [] found = found"
| "lastIndexLoop c pos i (x # xs) found =
     (if pos < i then found
      else lastIndexLoop c pos (Suc i) xs (if x = c then int i else found))"

definition lastIndexOf :: "jschar \<Rightarrow> nat \<Rightarrow> jsstring \<Rightarrow> int" where
  "lastIndexOf c pos s = lastIndexLoop c pos 0 s (-1)"

section \<open>Regular expressions\<close>

text \<open>
  The parser is written with regular expressions, so the model carries a matcher with
  the semantics of the runtime: a backtracking matcher in continuation style, as the
  language standard defines it. Alternatives are tried left to right, a greedy
  quantifier tries one more iteration before it tries the rest of the pattern, a lazy
  one the other way round, and an iteration that matches the empty string once the
  minimum is reached is rejected. The state of a match is the index reached, the
  input that is left, and the capture groups set so far.
\<close>

datatype regex =
    Atom "jschar \<Rightarrow> bool"
  | Eps
  | Cat regex regex
  | Alt regex regex
  | Rep nat "nat option" bool regex
  | Group nat regex
  | Bol
  | Eol
  | Look regex

type_synonym captures = "nat \<rightharpoonup> jsstring"
type_synonym mstate = "nat \<times> jsstring \<times> captures"
type_synonym cont = "mstate \<Rightarrow> mstate option"

text \<open>
  \<open>Rep mn mx greedy r\<close> is \<open>r{mn,mx}\<close> (\<open>mx = None\<close>: no upper bound). The loop runs on
  fuel; \<open>mn\<close> plus the length of the input left is enough, since every iteration past
  the minimum consumes input.
\<close>

primrec repeatMatcher ::
  "nat \<Rightarrow> (cont \<Rightarrow> cont) \<Rightarrow> nat \<Rightarrow> nat option \<Rightarrow> bool \<Rightarrow> cont \<Rightarrow> cont" where
  "repeatMatcher 0 body mn mx greedy k st = (if mn = 0 then k st else None)"
| "repeatMatcher (Suc fuel) body mn mx greedy k st =
    (if mx = Some 0 then k st
     else
       let again = body (\<lambda>st'. if mn = 0 \<and> fst st' = fst st then None
                        else repeatMatcher fuel body (mn - 1) (map_option (\<lambda>n. n - 1) mx) greedy k st') st
       in if 0 < mn then again
          else if greedy then (case again of Some r \<Rightarrow> Some r | None \<Rightarrow> k st)
          else (case k st of Some r \<Rightarrow> Some r | None \<Rightarrow> again))"

primrec matcher :: "regex \<Rightarrow> cont \<Rightarrow> cont" where
  "matcher (Atom p) k st =
     (case st of (i, [], caps) \<Rightarrow> None
      | (i, c # s, caps) \<Rightarrow> if p c then k (Suc i, s, caps) else None)"
| "matcher Eps k st = k st"
| "matcher (Cat a b) k st = matcher a (matcher b k) st"
| "matcher (Alt a b) k st = (case matcher a k st of Some r \<Rightarrow> Some r | None \<Rightarrow> matcher b k st)"
| "matcher (Rep mn mx greedy r) k st =
     repeatMatcher (mn + length (fst (snd st))) (matcher r) mn mx greedy k st"
| "matcher (Group n r) k st =
     matcher r (\<lambda>(j, s', caps'). k (j, s', caps'(n \<mapsto> take (j - fst st) (fst (snd st))))) st"
| "matcher Bol k st = (if fst st = 0 then k st else None)"
| "matcher Eol k st = (if fst (snd st) = [] then k st else None)"
| "matcher (Look r) k st =
     (case matcher r Some st of
        Some (j, s', caps') \<Rightarrow> k (fst st, fst (snd st), caps')
      | None \<Rightarrow> None)"

text \<open>Pattern syntax: literals, with and without the \<^verbatim>\<open>i\<close> flag, sequences, alternatives, quantifiers.\<close>

definition chr :: "jschar \<Rightarrow> regex" where
  "chr c = Atom (\<lambda>x. x = c)"

fun lit :: "jsstring \<Rightarrow> regex" where
  "lit [] = Eps"
| "lit (c # cs) = Cat (chr c) (lit cs)"

text \<open>
  Under the \<^verbatim>\<open>i\<close> flag (without \<^verbatim>\<open>u\<close>) two code units match when their canonical
  forms agree; the canonical form of a code unit from 128 on is never an ASCII one, so
  an ASCII letter of a pattern matches its two ASCII cases and nothing else.
\<close>

definition asciiUpper :: "jschar \<Rightarrow> jschar" where
  "asciiUpper c = (if 97 \<le> c \<and> c \<le> 122 then c - 32 else c)"

definition chri :: "jschar \<Rightarrow> regex" where
  "chri c = Atom (\<lambda>x. asciiUpper x = asciiUpper c)"

fun liti :: "jsstring \<Rightarrow> regex" where
  "liti [] = Eps"
| "liti (c # cs) = Cat (chri c) (liti cs)"

fun seqs :: "regex list \<Rightarrow> regex" where
  "seqs [] = Eps"
| "seqs [r] = r"
| "seqs (r # rs) = Cat r (seqs rs)"

fun alts :: "regex list \<Rightarrow> regex" where
  "alts [] = Eps"
| "alts [r] = r"
| "alts (r # rs) = Alt r (alts rs)"

definition star :: "regex \<Rightarrow> regex" where "star r = Rep 0 None True r"
definition plus :: "regex \<Rightarrow> regex" where "plus r = Rep 1 None True r"
definition opt :: "regex \<Rightarrow> regex" where "opt r = Rep 0 (Some 1) True r"
definition lazyStar :: "regex \<Rightarrow> regex" where "lazyStar r = Rep 0 None False r"
definition lazyPlus :: "regex \<Rightarrow> regex" where "lazyPlus r = Rep 1 None False r"

text \<open>
  One attempt at index \<open>i\<close>, where \<open>s\<close> is the input from \<open>i\<close> on: the end index and the
  capture groups.
\<close>

definition regexAt :: "regex \<Rightarrow> nat \<Rightarrow> jsstring \<Rightarrow> (nat \<times> jsstring \<times> captures) option" where
  "regexAt re i s = matcher re Some (i, s, Map.empty)"

text \<open>
  \<^verbatim>\<open>s.match(re)\<close> and \<^verbatim>\<open>re.exec(s)\<close> without the \<^verbatim>\<open>g\<close> flag: the first index, from the
  left, at which an attempt succeeds. The result is the start index, the end index
  and the groups.
\<close>

fun searchFrom :: "regex \<Rightarrow> nat \<Rightarrow> jsstring \<Rightarrow> (nat \<times> nat \<times> captures) option" where
  "searchFrom re i [] =
     (case regexAt re i [] of Some (j, rest, caps) \<Rightarrow> Some (i, j, caps) | None \<Rightarrow> None)"
| "searchFrom re i (c # s) =
     (case regexAt re i (c # s) of
        Some (j, rest, caps) \<Rightarrow> Some (i, j, caps)
      | None \<Rightarrow> searchFrom re (Suc i) s)"

definition regexMatch :: "regex \<Rightarrow> jsstring \<Rightarrow> (nat \<times> nat \<times> captures) option" where
  "regexMatch re s = searchFrom re 0 s"

definition regexTest :: "regex \<Rightarrow> jsstring \<Rightarrow> bool" where
  "regexTest re s = (regexMatch re s \<noteq> None)"

text \<open>A capture group of a match; a group that took no part is \<^verbatim>\<open>undefined\<close>.\<close>

definition group :: "captures \<Rightarrow> nat \<Rightarrow> jsstring" where
  "group caps n = (case caps n of Some g \<Rightarrow> g | None \<Rightarrow> [])"

text \<open>
  The loop \<^verbatim>\<open>while ((match = re.exec(text)) !== null)\<close> of a \<^verbatim>\<open>g\<close> expression: the
  matches from left to right, each search starting where the last match ended. After
  an empty match the model moves on by one code unit, as \<^verbatim>\<open>replace\<close> does; none of the
  global expressions of the parser matches the empty string.
\<close>

function execAll :: "regex \<Rightarrow> nat \<Rightarrow> jsstring \<Rightarrow> (nat \<times> nat \<times> captures) list" where
  "execAll re i s =
     (case regexAt re i s of
        Some (j, rest, caps) \<Rightarrow>
          (i, j, caps) #
            (if length rest < length s then execAll re j rest
             else (case s of [] \<Rightarrow> [] | c # s' \<Rightarrow> execAll re (Suc i) s'))
      | None \<Rightarrow> (case s of [] \<Rightarrow> [] | c # s' \<Rightarrow> execAll re (Suc i) s'))"
  by pat_completeness auto
termination
  by (relation "measure (\<lambda>(re, i, s). length s)") auto

text \<open>\<^verbatim>\<open>s.replace(re, repl)\<close> with the \<^verbatim>\<open>g\<close> flag and a constant replacement.\<close>

function replaceAllFrom :: "regex \<Rightarrow> jsstring \<Rightarrow> nat \<Rightarrow> jsstring \<Rightarrow> jsstring" where
  "replaceAllFrom re repl i s =
     (case regexAt re i s of
        Some (j, rest, caps) \<Rightarrow>
          repl @
            (if length rest < length s then replaceAllFrom re repl j rest
             else (case s of [] \<Rightarrow> [] | c # s' \<Rightarrow> c # replaceAllFrom re repl (Suc i) s'))
      | None \<Rightarrow> (case s of [] \<Rightarrow> [] | c # s' \<Rightarrow> c # replaceAllFrom re repl (Suc i) s'))"
  by pat_completeness auto
termination
  by (relation "measure (\<lambda>(re, repl, i, s). length s)") auto

definition replaceAll :: "regex \<Rightarrow> jsstring \<Rightarrow> jsstring \<Rightarrow> jsstring" where
  "replaceAll re repl s = replaceAllFrom re repl 0 s"

text \<open>\<^verbatim>\<open>s.replace(re, repl)\<close> without the \<^verbatim>\<open>g\<close> flag: the first match only.\<close>

definition replaceFirst :: "regex \<Rightarrow> jsstring \<Rightarrow> jsstring \<Rightarrow> jsstring" where
  "replaceFirst re repl s =
     (case regexMatch re s of
        None \<Rightarrow> s
      | Some (i, j, caps) \<Rightarrow> take i s @ repl @ drop j s)"

section \<open>Data model\<close>

text \<open>
  The interfaces of the parser. Field names are prefixed with their record where
  several records share a name (\<^verbatim>\<open>id\<close>, \<^verbatim>\<open>title\<close>, \<^verbatim>\<open>timestamps\<close>, \<^verbatim>\<open>category\<close>) or a
  function takes an argument of that name. The
  optional field \<^verbatim>\<open>subsections\<close> of a section and \<^verbatim>\<open>color\<close> of a timestamp are never
  set by the parser and are left out.
\<close>

datatype Category =
  striking | grappling | defensive | pattern | mental | movement | cardio | other

record Timestamp =
  ts_time :: jsstring
  ts_seconds :: nat
  ts_label :: jsstring
  ts_category :: Category

record ReportSection =
  section_id :: jsstring
  section_title :: jsstring
  section_content :: jsstring
  section_timestamps :: "Timestamp list"

datatype Severity = critical | high | medium | low

datatype Confidence = conf_high | conf_medium | conf_low | inconclusive

record Finding =
  finding_id :: jsstring
  finding_title :: jsstring
  finding_description :: jsstring
  finding_severity :: Severity
  finding_category :: Category
  finding_instanceCount :: nat
  finding_confidence :: Confidence
  finding_timestamps :: "Timestamp list"
  finding_counterEvidence :: "jsstring option"

record PriorityImprovement =
  imp_area :: Category
  imp_issue :: jsstring
  imp_fix :: jsstring
  imp_drillRecommendation :: "jsstring option"
  imp_priority :: nat

record OverallAssessment =
  level :: jsstring
  archetype :: jsstring
  summary :: jsstring

record ReportMetadata =
  totalFindings :: nat
  criticalCount :: nat
  highCount :: nat
  mediumCount :: nat
  lowCount :: nat
  validationWarnings :: "jsstring list"

record DecisionNode =
  trigger :: jsstring
  response :: jsstring
  node_timestamp :: "Timestamp option"

datatype AnalysisType = full | quick | progress

record SelfScoutReport =
  report_id :: jsstring
  report_generatedAt :: nat
  report_analysisType :: AnalysisType
  report_overallAssessment :: OverallAssessment
  report_findings :: "Finding list"
  report_strengths :: "Finding list"
  report_priorityImprovements :: "PriorityImprovement list"
  report_opponentGamePlan :: "jsstring option"
  report_sections :: "ReportSection list"
  report_timestamps :: "Timestamp list"
  report_metadata :: ReportMetadata
  report_rawContent :: jsstring

section \<open>Timestamp extraction\<close>

text \<open>
  The expression of \<^verbatim>\<open>extractTimestamps\<close> and \<^verbatim>\<open>stripTimestamps\<close>: an opening square or
  round bracket, group 1 (one or two digits, a colon, two digits), an optional range
  end (a dash, one or two digits, a colon, two digits), a closing bracket of either
  kind.
\<close>

definition timestampRegex :: regex where
  "timestampRegex =
     seqs [Atom (oneOf (js ''[('')),
           Group 1 (seqs [Rep 1 (Some 2) True (Atom isDigit), chr 58, Rep 2 (Some 2) True (Atom isDigit)]),
           opt (seqs [chr 45, Rep 1 (Some 2) True (Atom isDigit), chr 58,
                      Rep 2 (Some 2) True (Atom isDigit)]),
           Atom (oneOf (js ''])''))]"

text \<open>The keyword tests of \<^verbatim>\<open>categorizeTimestampContext\<close>: alternatives of literals.\<close>

definition anyOf :: "string list \<Rightarrow> regex" where
  "anyOf ws = alts (map (\<lambda>w. lit (js w)) ws)"

definition categorizeTimestampContext :: "lowering \<Rightarrow> jsstring \<Rightarrow> Category" where
  "categorizeTimestampContext lc context =
     (let lower = toLowerCase lc context in
      if regexTest (anyOf [''punch'', ''kick'', ''jab'', ''cross'', ''hook'', ''uppercut'',
            ''overhand'', ''elbow'', ''knee'', ''strike'', ''striking'', ''boxing'']) lower
      then striking
      else if regexTest (anyOf [''takedown'', ''clinch'', ''submission'', ''guard'', ''mount'',
            ''choke'', ''wrestling'', ''grappl'', ''ground'', ''back control'', ''half guard'',
            ''side control'']) lower
      then grappling
      else if regexTest (anyOf [''block'', ''dodge'', ''slip'', ''parry'', ''defense'',
            ''defensive'', ''head movement'', ''sprawl'']) lower
      then defensive
      else if regexTest (anyOf [''habit'', ''pattern'', ''always'', ''tends'', ''consistently'',
            ''every time'', ''predictable'', ''telegrap'']) lower
      then pattern
      else other)"

text \<open>
  The body of the loop of \<^verbatim>\<open>extractTimestamps\<close> for one match, \<open>idx\<close> its index and
  \<open>caps\<close> its groups. \<^verbatim>\<open>const [mins, secs] = timeString.split(':').map(Number)\<close> reads
  the first two pieces; group 1 always has two. The window of the label starts at
  \<^verbatim>\<open>Math.max(0, match.index - 50)\<close>, the truncating subtraction of the natural numbers,
  and \<^verbatim>\<open>replace(/[\n\r]/g, ' ')\<close> maps every line feed and carriage return to a space.
\<close>

definition timestampOfMatch :: "lowering \<Rightarrow> jsstring \<Rightarrow> nat \<times> nat \<times> captures \<Rightarrow> Timestamp" where
  "timestampOfMatch lc text m =
     (case m of (idx, endIdx, caps) \<Rightarrow>
        let timeString = group caps 1;
            parts = map Number (split 58 timeString);
            mins = (case parts of a # rest \<Rightarrow> a | [] \<Rightarrow> 0);
            secs = (case parts of a # b # rest \<Rightarrow> b | _ \<Rightarrow> 0);
            timeStr = toString mins @ js '':'' @ padStart 2 48 (toString secs);
            seconds = mins * 60 + secs;
            start = idx - 50;
            end = min (length text) (idx + 50);
            context = trim (map (\<lambda>c. if c = NL \<or> c = CR then 32 else c) (substring start end text))
        in \<lparr> ts_time = timeStr,
             ts_seconds = seconds,
             ts_label = substring 0 40 context @ (if 40 < length context then js ''...'' else []),
             ts_category = categorizeTimestampContext lc context \<rparr>)"

definition extractTimestamps :: "lowering \<Rightarrow> jsstring \<Rightarrow> Timestamp list" where
  "extractTimestamps lc text =
     (if text = [] then []
      else map (timestampOfMatch lc text) (execAll timestampRegex 0 text))"

definition stripTimestamps :: "jsstring \<Rightarrow> jsstring" where
  "stripTimestamps text = trim (replaceAll timestampRegex [] text)"

section \<open>Section parsing\<close>

text \<open>
  The two heading expressions of \<^verbatim>\<open>parseReportSections\<close>, both anchored at the start of
  the trimmed line: one to three hashes (group 1), white space, the rest of the line
  (group 2); and a line of capitals, digits, white space and \<^verbatim>\<open>&:,-\<close> between two pairs
  of asterisks.
\<close>

definition hashHeaderRegex :: regex where
  "hashHeaderRegex =
     seqs [Bol, Group 1 (Rep 1 (Some 3) True (chr 35)), plus (Atom isWhiteSpace),
           Group 2 (plus (Atom dot))]"

definition boldHeaderClass :: "jschar \<Rightarrow> bool" where
  "boldHeaderClass c =
     ((65 \<le> c \<and> c \<le> 90) \<or> isDigit c \<or> isWhiteSpace c \<or> c \<in> set (js ''&:,-''))"

definition boldHeaderRegex :: regex where
  "boldHeaderRegex = seqs [Bol, lit (js ''**''), plus (Atom boldHeaderClass), lit (js ''**''), Eol]"

definition boldMarker :: regex where
  "boldMarker = lit (js ''**'')"

definition generateSectionId :: "lowering \<Rightarrow> jsstring \<Rightarrow> jsstring" where
  "generateSectionId lc title =
     substring 0 50
       (replaceAll (plus (Atom isWhiteSpace)) (js ''-'')
         (replaceAll (Atom (\<lambda>c. \<not> ((97 \<le> c \<and> c \<le> 122) \<or> isDigit c \<or> isWhiteSpace c))) []
           (toLowerCase lc title)))"

text \<open>Closing a section: its content is trimmed and its timestamps are read from it.\<close>

definition finalizeSection :: "lowering \<Rightarrow> ReportSection \<Rightarrow> ReportSection" where
  "finalizeSection lc cur =
     (let c = trim (section_content cur)
      in cur\<lparr> section_content := c, section_timestamps := extractTimestamps lc c \<rparr>)"

text \<open>
  The header test on a trimmed line: the title of the heading, if the line is one.
  The hash form is tried first.
\<close>

definition headerTitle :: "jsstring \<Rightarrow> jsstring option" where
  "headerTitle trimmedLine =
     (let hashMatch = regexMatch hashHeaderRegex trimmedLine;
          boldHeaderMatch = regexMatch boldHeaderRegex trimmedLine
      in case hashMatch of
           Some (i, j, caps) \<Rightarrow> Some (trim (replaceAll boldMarker [] (group caps 2)))
         | None \<Rightarrow>
            (case boldHeaderMatch of
               Some m \<Rightarrow> Some (trim (replaceAll boldMarker [] trimmedLine))
             | None \<Rightarrow> None))"

text \<open>
  The body of \<^verbatim>\<open>lines.forEach\<close>. The state is the array \<^verbatim>\<open>sections\<close> and the variable
  \<^verbatim>\<open>currentSection\<close> (\<open>None\<close> for \<^verbatim>\<open>null\<close>).
\<close>

definition parseLine ::
  "lowering \<Rightarrow> ReportSection list \<times> ReportSection option \<Rightarrow> jsstring \<Rightarrow> ReportSection list \<times> ReportSection option" where
  "parseLine lc st line =
     (case st of (secs, currentSection) \<Rightarrow>
        let trimmedLine = trim line in
        if trimmedLine = [] then
          (secs, map_option (\<lambda>cur. cur\<lparr> section_content := section_content cur @ [NL] \<rparr>) currentSection)
        else
          (case headerTitle trimmedLine of
             Some title \<Rightarrow>
               ((case currentSection of Some cur \<Rightarrow> secs @ [finalizeSection lc cur] | None \<Rightarrow> secs),
                Some \<lparr> section_id = generateSectionId lc title, section_title = title,
                       section_content = [], section_timestamps = [] \<rparr>)
           | None \<Rightarrow>
               (case currentSection of
                  Some cur \<Rightarrow> (secs, Some (cur\<lparr> section_content := section_content cur @ line @ [NL] \<rparr>))
                | None \<Rightarrow>
                    (secs, Some \<lparr> section_id = js ''intro'', section_title = js ''Introduction'',
                                 section_content = line @ [NL], section_timestamps = [] \<rparr>))))"

definition parseReportSections :: "lowering \<Rightarrow> jsstring \<Rightarrow> ReportSection list" where
  "parseReportSections lc markdown =
     (if markdown = [] then []
      else
        (case foldl (parseLine lc) ([], None) (split NL markdown) of
           (secs, currentSection) \<Rightarrow>
             (case currentSection of
                Some cur \<Rightarrow> secs @ [finalizeSection lc cur]
              | None \<Rightarrow> secs)))"

section \<open>Finding extraction\<close>

text \<open>
  The identifiers of the findings come from \<^verbatim>\<open>crypto.randomUUID()\<close>, whose values the
  parser does not determine. It is a parameter \<open>uuid\<close> of the model: \<open>uuid n\<close> is the value
  of the call number \<open>n\<close>, and every function that draws identifiers takes the number of
  calls made so far.
\<close>

type_synonym uuidgen = "nat \<Rightarrow> jsstring"

text \<open>
  The list item tests. In the source the anchor belongs to the first alternative
  only: a bullet (\<^verbatim>\<open>-\<close>, \<^verbatim>\<open>*\<close>, U+2022) at the start of the line, or digits and a full
  stop (and one white space, for findings) anywhere in the line.
\<close>

definition bulletClass :: "jschar \<Rightarrow> bool" where
  "bulletClass c = (c = 45 \<or> c = 42 \<or> c = BULLET)"

definition findingItemRegex :: regex where
  "findingItemRegex =
     Alt (Cat Bol (Atom bulletClass)) (seqs [plus (Atom isDigit), chr 46, Atom isWhiteSpace])"

definition listItemRegex :: regex where
  "listItemRegex = Alt (Cat Bol (Atom bulletClass)) (seqs [plus (Atom isDigit), chr 46])"

definition itemPrefixRegex :: regex where
  "itemPrefixRegex =
     Alt (Cat Bol (Atom bulletClass)) (seqs [plus (Atom isDigit), chr 46, star (Atom isWhiteSpace)])"

definition boldTitleRegex :: regex where
  "boldTitleRegex = seqs [lit (js ''**''), Group 1 (plus (Atom (noneOf (js ''*'')))), lit (js ''**'')]"

text \<open>\<^verbatim>\<open>text.split(/[.!?]/)[0]\<close>: the text before the first sentence terminator.\<close>

definition firstSentenceOf :: "jsstring \<Rightarrow> jsstring" where
  "firstSentenceOf text = takeWhile (noneOf (js ''.!?'')) text"

definition extractTitle :: "jsstring \<Rightarrow> jsstring" where
  "extractTitle text =
     (case regexMatch boldTitleRegex text of
        Some (i, j, caps) \<Rightarrow>
          (let cleanTitle = stripTimestamps (group caps 1)
           in if substring 0 60 cleanTitle = [] then js ''Untitled Finding''
              else substring 0 60 cleanTitle)
      | None \<Rightarrow>
          (let firstSentence = firstSentenceOf text;
               cleanText = stripTimestamps (if firstSentence = [] then text else firstSentence)
           in if cleanText = [] \<or> length cleanText < 3 then js ''Untitled Finding''
              else substring 0 60 cleanText @ (if 60 < length cleanText then js ''...'' else [])))"

definition inferSeverity :: "lowering \<Rightarrow> jsstring \<Rightarrow> jsstring \<Rightarrow> nat \<Rightarrow> Severity" where
  "inferSeverity lc sectionTitle text index =
     (let lower = toLowerCase lc (sectionTitle @ js '' '' @ text) in
      if includesStr lower (js ''critical'') \<or> includesStr lower (js ''major hole'')
         \<or> includesStr lower (js ''biggest'') then critical
      else if includesStr lower (js ''high'') \<or> includesStr lower (js ''significant'')
         \<or> includesStr lower (js ''dangerous'') then high
      else if includesStr lower (js ''low'') \<or> includesStr lower (js ''minor'')
         \<or> includesStr lower (js ''small'') then low
      else if index \<le> 2 then high
      else if index \<le> 5 then medium
      else low)"

definition inferCategory :: "lowering \<Rightarrow> jsstring \<Rightarrow> Category" where
  "inferCategory lc text =
     (let lower = toLowerCase lc text in
      if regexTest (anyOf [''punch'', ''kick'', ''jab'', ''cross'', ''hook'', ''strike'',
            ''striking'', ''boxing'', ''overhand'', ''hands'', ''chin'']) lower
      then striking
      else if regexTest (anyOf [''takedown'', ''clinch'', ''submission'', ''guard'', ''mount'',
            ''grappl'', ''wrestling'', ''ground'', ''back'', ''rnc'', ''choke'']) lower
      then grappling
      else if regexTest (anyOf [''stance'', ''footwork'', ''movement'', ''balance'', ''position'',
            ''lateral'', ''pivot'', ''circle'']) lower
      then movement
      else if regexTest (anyOf [''cardio'', ''tired'', ''fatigue'', ''gas'', ''pace'',
            ''breathing'', ''output'']) lower
      then cardio
      else if regexTest (anyOf [''mental'', ''frustrat'', ''panic'', ''composure'', ''iq'',
            ''decision'']) lower
      then mental
      else pattern)"

definition inferConfidence :: "lowering \<Rightarrow> jsstring \<Rightarrow> nat \<Rightarrow> Confidence" where
  "inferConfidence lc text timestampCount =
     (let lower = toLowerCase lc text in
      if includesStr lower (js ''inconclusive'') \<or> includesStr lower (js ''unclear'')
         \<or> includesStr lower (js ''cannot assess'') then inconclusive
      else if includesStr lower (js ''low confidence'') then conf_low
      else if 3 \<le> timestampCount then conf_high
      else if 1 \<le> timestampCount then conf_medium
      else conf_low)"

text \<open>
  The expression of \<^verbatim>\<open>extractCounterEvidence\<close> (flag \<^verbatim>\<open>i\<close>): group 1 belongs to the
  last alternative only, so a match of one of the first four words gives \<^verbatim>\<open>undefined\<close>.
\<close>

definition counterEvidenceRegex :: regex where
  "counterEvidenceRegex =
     alts [liti (js ''however''), liti (js ''but''), liti (js ''except''), liti (js ''although''),
           seqs [liti (js ''counter''), opt (Atom (oneOf (js ''- ''))), liti (js ''evidence''),
                 opt (chr 58), star (Atom isWhiteSpace),
                 Group 1 (plus (Atom (noneOf (js ''.''))))]]"

definition extractCounterEvidence :: "jsstring \<Rightarrow> jsstring option" where
  "extractCounterEvidence text =
     (case regexMatch counterEvidenceRegex text of
        Some (i, j, caps) \<Rightarrow> map_option trim (caps 1)
      | None \<Rightarrow> None)"

text \<open>
  The text of a list item: the trimmed line without its first bullet or number.
\<close>

definition itemText :: "jsstring \<Rightarrow> jsstring" where
  "itemText cleanLine = trim (replaceFirst itemPrefixRegex [] cleanLine)"

text \<open>The object pushed by \<^verbatim>\<open>extractFindingsFromSection\<close> for the text of an item.\<close>

definition makeFinding :: "lowering \<Rightarrow> uuidgen \<Rightarrow> nat \<Rightarrow> jsstring \<Rightarrow> nat \<Rightarrow> jsstring \<Rightarrow> Finding" where
  "makeFinding lc uuid n sectionTitle index text =
     (let timestamps = extractTimestamps lc text in
      \<lparr> finding_id = uuid n,
        finding_title = extractTitle text,
        finding_description = text,
        finding_severity = inferSeverity lc sectionTitle text index,
        finding_category = inferCategory lc text,
        finding_instanceCount = (if length timestamps = 0 then 1 else length timestamps),
        finding_confidence = inferConfidence lc text (length timestamps),
        finding_timestamps = timestamps,
        finding_counterEvidence = extractCounterEvidence text \<rparr>)"

text \<open>
  One line of a finding section, \<open>index\<close> its index among the lines of the section
  content and \<open>n\<close> the identifiers drawn so far: the finding pushed for it, if any.
\<close>

definition findingOfLine ::
  "lowering \<Rightarrow> uuidgen \<Rightarrow> nat \<Rightarrow> jsstring \<Rightarrow> nat \<Rightarrow> jsstring \<Rightarrow> Finding option" where
  "findingOfLine lc uuid n sectionTitle index line =
     (let cleanLine = trim line in
      if regexTest findingItemRegex cleanLine \<and> 15 < length cleanLine then
        (let text = itemText cleanLine in
         if 10 < length text then Some (makeFinding lc uuid n sectionTitle index text)
         else None)
      else None)"

fun findingsOfLines ::
  "lowering \<Rightarrow> uuidgen \<Rightarrow> nat \<Rightarrow> jsstring \<Rightarrow> nat \<Rightarrow> jsstring list \<Rightarrow> Finding list" where
  "findingsOfLines lc uuid n sectionTitle index [] = []"
| "findingsOfLines lc uuid n sectionTitle index (line # rest) =
     (case findingOfLine lc uuid n sectionTitle index line of
        Some f \<Rightarrow> f # findingsOfLines lc uuid (Suc n) sectionTitle (Suc index) rest
      | None \<Rightarrow> findingsOfLines lc uuid n sectionTitle (Suc index) rest)"

definition extractFindingsFromSection :: "lowering \<Rightarrow> uuidgen \<Rightarrow> nat \<Rightarrow> ReportSection \<Rightarrow> Finding list" where
  "extractFindingsFromSection lc uuid n section =
     findingsOfLines lc uuid n (section_title section) 0 (split NL (section_content section))"

text \<open>
  \<^verbatim>\<open>deduplicateFindings\<close>: a filter that carries the set \<^verbatim>\<open>seen\<close> of the keys met so far.
\<close>

definition dedupKey :: "lowering \<Rightarrow> Finding \<Rightarrow> jsstring" where
  "dedupKey lc f = substring 0 30 (toLowerCase lc (finding_title f))"

fun dedupLoop :: "lowering \<Rightarrow> jsstring set \<Rightarrow> Finding list \<Rightarrow> Finding list" where
  "dedupLoop lc seen [] = []"
| "dedupLoop lc seen (f # fs) =
     (if dedupKey lc f \<in> seen then dedupLoop lc seen fs
      else f # dedupLoop lc (insert (dedupKey lc f) seen) fs)"

definition deduplicateFindings :: "lowering \<Rightarrow> Finding list \<Rightarrow> Finding list" where
  "deduplicateFindings lc fs = dedupLoop lc {} fs"

text \<open>
  The sort key of \<^verbatim>\<open>extractFindings\<close>: \<^verbatim>\<open>Math.min\<close> of the seconds of the timestamps of a
  finding, \<^verbatim>\<open>Infinity\<close> when it has none. The comparison function of the source is the
  difference of two keys (\<^verbatim>\<open>NaN\<close>, for two infinite keys, counts as zero), and
  \<^verbatim>\<open>Array.prototype.sort\<close> is stable: the sort is the stable sort by key.
\<close>

definition earliest :: "Finding \<Rightarrow> enat" where
  "earliest f = foldr (\<lambda>t m. min (enat (ts_seconds t)) m) (finding_timestamps f) \<infinity>"

definition titleHasKeyword :: "lowering \<Rightarrow> string list \<Rightarrow> ReportSection \<Rightarrow> bool" where
  "titleHasKeyword lc kws s =
     list_ex (\<lambda>kw. includesStr (toLowerCase lc (section_title s)) (js kw)) kws"

definition findingSectionKeywords :: "string list" where
  "findingSectionKeywords =
     [''weaknesses'', ''exploitable patterns'', ''habits'', ''bad habits'', ''major holes'']"

text \<open>The array \<^verbatim>\<open>findings\<close> of \<^verbatim>\<open>extractFindings\<close> after the loop over the finding sections.\<close>

fun collectFindings :: "lowering \<Rightarrow> uuidgen \<Rightarrow> nat \<Rightarrow> ReportSection list \<Rightarrow> Finding list" where
  "collectFindings lc uuid n [] = []"
| "collectFindings lc uuid n (s # ss) =
     (let sectionFindings = extractFindingsFromSection lc uuid n s
      in sectionFindings @ collectFindings lc uuid (n + length sectionFindings) ss)"

definition extractFindings :: "lowering \<Rightarrow> uuidgen \<Rightarrow> nat \<Rightarrow> ReportSection list \<Rightarrow> jsstring \<Rightarrow> Finding list" where
  "extractFindings lc uuid n secs rawContent =
     (let findingSections = filter (titleHasKeyword lc findingSectionKeywords) secs;
          uniqueFindings = deduplicateFindings lc (collectFindings lc uuid n findingSections)
      in sort_key earliest uniqueFindings)"

section \<open>Strength extraction\<close>

definition strengthKeywords :: "string list" where
  "strengthKeywords = [''strengths'', ''good things'', ''offensive threats'']"

definition makeStrength :: "lowering \<Rightarrow> uuidgen \<Rightarrow> nat \<Rightarrow> jsstring \<Rightarrow> Finding" where
  "makeStrength lc uuid n text =
     (let timestamps = extractTimestamps lc text in
      \<lparr> finding_id = uuid n,
        finding_title = extractTitle text,
        finding_description = text,
        finding_severity = low,
        finding_category = inferCategory lc text,
        finding_instanceCount = (if length timestamps = 0 then 1 else length timestamps),
        finding_confidence = conf_high,
        finding_timestamps = timestamps,
        finding_counterEvidence = None \<rparr>)"

definition strengthOfLine :: "lowering \<Rightarrow> uuidgen \<Rightarrow> nat \<Rightarrow> jsstring \<Rightarrow> Finding option" where
  "strengthOfLine lc uuid n line =
     (let cleanLine = trim line in
      if regexTest listItemRegex cleanLine \<and> 15 < length cleanLine then
        (let text = itemText cleanLine in
         if 10 < length text then Some (makeStrength lc uuid n text)
         else None)
      else None)"

fun strengthsOfLines :: "lowering \<Rightarrow> uuidgen \<Rightarrow> nat \<Rightarrow> jsstring list \<Rightarrow> Finding list" where
  "strengthsOfLines lc uuid n [] = []"
| "strengthsOfLines lc uuid n (line # rest) =
     (case strengthOfLine lc uuid n line of
        Some f \<Rightarrow> f # strengthsOfLines lc uuid (Suc n) rest
      | None \<Rightarrow> strengthsOfLines lc uuid n rest)"

fun collectStrengths :: "lowering \<Rightarrow> uuidgen \<Rightarrow> nat \<Rightarrow> ReportSection list \<Rightarrow> Finding list" where
  "collectStrengths lc uuid n [] = []"
| "collectStrengths lc uuid n (s # ss) =
     (let sectionStrengths = strengthsOfLines lc uuid n (split NL (section_content s))
      in sectionStrengths @ collectStrengths lc uuid (n + length sectionStrengths) ss)"

definition extractStrengths :: "lowering \<Rightarrow> uuidgen \<Rightarrow> nat \<Rightarrow> ReportSection list \<Rightarrow> jsstring \<Rightarrow> Finding list" where
  "extractStrengths lc uuid n secs rawContent =
     (let strengthSections = filter (titleHasKeyword lc strengthKeywords) secs
      in deduplicateFindings lc (collectStrengths lc uuid n strengthSections))"

section \<open>Improvement extraction\<close>

definition fixRegex :: regex where
  "fixRegex =
     seqs [alts [liti (js ''fix''), liti (js ''improve''), liti (js ''work on''),
                 liti (js ''focus on''), liti (js ''practice''), liti (js ''develop'')],
           plus (Atom (orWhiteSpace (js '':''))),
           Group 1 (plus (Atom (noneOf (js ''.''))))]"

definition extractFix :: "jsstring \<Rightarrow> jsstring" where
  "extractFix text =
     (case regexMatch fixRegex text of
        Some (i, j, caps) \<Rightarrow> trim (group caps 1)
      | None \<Rightarrow> js ''Address this issue through focused training and drilling.'')"

definition drillRegex :: regex where
  "drillRegex =
     seqs [alts [liti (js ''drill''), liti (js ''exercise''), liti (js ''practice'')],
           plus (Atom (orWhiteSpace (js '':''))),
           Group 1 (plus (Atom (noneOf (js ''.''))))]"

definition extractDrill :: "jsstring \<Rightarrow> jsstring option" where
  "extractDrill text =
     (case regexMatch drillRegex text of
        Some (i, j, caps) \<Rightarrow> Some (trim (group caps 1))
      | None \<Rightarrow> None)"

definition improvementOfLine :: "lowering \<Rightarrow> nat \<Rightarrow> jsstring \<Rightarrow> PriorityImprovement option" where
  "improvementOfLine lc priority line =
     (let cleanLine = trim line in
      if regexTest listItemRegex cleanLine \<and> 15 < length cleanLine then
        (let text = itemText cleanLine in
         Some \<lparr> imp_area = inferCategory lc text,
                imp_issue = text,
                imp_fix = extractFix text,
                imp_drillRecommendation = extractDrill text,
                imp_priority = priority \<rparr>)
      else None)"

fun improvementsOfLines :: "lowering \<Rightarrow> nat \<Rightarrow> jsstring list \<Rightarrow> PriorityImprovement list" where
  "improvementsOfLines lc priority [] = []"
| "improvementsOfLines lc priority (line # rest) =
     (case improvementOfLine lc priority line of
        Some x \<Rightarrow> x # improvementsOfLines lc (Suc priority) rest
      | None \<Rightarrow> improvementsOfLines lc priority rest)"

fun collectImprovements ::
  "lowering \<Rightarrow> PriorityImprovement list \<Rightarrow> ReportSection list \<Rightarrow> PriorityImprovement list" where
  "collectImprovements lc improvements [] = improvements"
| "collectImprovements lc improvements (s # ss) =
     collectImprovements lc
       (improvements @
          improvementsOfLines lc (length improvements + 1) (split NL (section_content s)))
       ss"

definition extractImprovements :: "lowering \<Rightarrow> ReportSection list \<Rightarrow> jsstring \<Rightarrow> PriorityImprovement list" where
  "extractImprovements lc secs rawContent =
     (let improvementSections = filter (titleHasKeyword lc [''priority'', ''improvement'', ''fix'']) secs
      in take 10 (collectImprovements lc [] improvementSections))"

section \<open>Decision tree extraction\<close>

text \<open>
  The expression of \<^verbatim>\<open>extractDecisionTree\<close> (flag \<^verbatim>\<open>i\<close>, not anchored): an optional bullet
  or number, white space, IF, white space, group 1 (lazy, at least one code unit),
  white space, THEN, white space, group 2 (greedy, the rest of the line).
\<close>

definition decisionRegex :: regex where
  "decisionRegex =
     seqs [opt (Alt (Atom bulletClass) (Cat (plus (Atom isDigit)) (chr 46))),
           star (Atom isWhiteSpace), liti (js ''IF''), plus (Atom isWhiteSpace),
           Group 1 (lazyPlus (Atom dot)),
           plus (Atom isWhiteSpace), liti (js ''THEN''), plus (Atom isWhiteSpace),
           Group 2 (plus (Atom dot))]"

definition nodeOfLine :: "lowering \<Rightarrow> jsstring \<Rightarrow> DecisionNode option" where
  "nodeOfLine lc line =
     (case regexMatch decisionRegex line of
        Some (i, j, caps) \<Rightarrow>
          (let triggerText = trim (replaceAll boldMarker [] (group caps 1));
               responseText = trim (group caps 2);
               timestamps = extractTimestamps lc line
           in Some \<lparr> trigger = triggerText,
                     response = responseText,
                     node_timestamp = (case timestamps of [] \<Rightarrow> None | t # ts \<Rightarrow> Some t) \<rparr>)
      | None \<Rightarrow> None)"

definition extractDecisionTree :: "lowering \<Rightarrow> ReportSection list \<Rightarrow> DecisionNode list" where
  "extractDecisionTree lc secs =
     (let treeSections = filter (titleHasKeyword lc [''decision'', ''counter logic'', ''tree'']) secs
      in concat (map (\<lambda>s. List.map_filter (nodeOfLine lc) (split NL (section_content s))) treeSections))"

section \<open>Overall assessment\<close>

text \<open>
  The expressions of \<^verbatim>\<open>extractOverallAssessment\<close> (flag \<^verbatim>\<open>i\<close>): up to two asterisks, the
  key, up to two asterisks, colons and white space, up to two asterisks, and the value
  (group 1): code units other than an asterisk and a line feed. The expressions that
  remove the two lines from the summary have no group and end with up to two
  asterisks.
\<close>

definition archetypeKey :: "regex list" where
  "archetypeKey =
     [opt (chr 42), opt (chr 42), liti (js ''Archetype''), opt (chr 42), opt (chr 42),
      star (Atom (orWhiteSpace (js '':''))), opt (chr 42), opt (chr 42)]"

definition levelKey :: "regex list" where
  "levelKey =
     [opt (chr 42), opt (chr 42), opt (Cat (liti (js ''Current'')) (plus (Atom isWhiteSpace))),
      liti (js ''Level''), opt (chr 42), opt (chr 42),
      star (Atom (orWhiteSpace (js '':''))), opt (chr 42), opt (chr 42)]"

definition valueClass :: "jschar \<Rightarrow> bool" where
  "valueClass c = (c \<noteq> 42 \<and> c \<noteq> NL)"

definition archetypeRegex :: regex where
  "archetypeRegex = seqs (archetypeKey @ [Group 1 (plus (Atom valueClass))])"

definition levelRegex :: regex where
  "levelRegex = seqs (levelKey @ [Group 1 (plus (Atom valueClass))])"

definition archetypeLineRegex :: regex where
  "archetypeLineRegex = seqs (archetypeKey @ [plus (Atom valueClass), opt (chr 42), opt (chr 42)])"

definition levelLineRegex :: regex where
  "levelLineRegex = seqs (levelKey @ [plus (Atom valueClass), opt (chr 42), opt (chr 42)])"

text \<open>
  The cut of a summary longer than 1500 code units: \<^verbatim>\<open>lastIndexOf\<close> looks for the last
  full stop, question mark and exclamation mark at an index up to 1500, that index
  included.
\<close>

definition truncateSummary :: "jsstring \<Rightarrow> jsstring" where
  "truncateSummary summaryText =
     (if 1500 < length summaryText then
        (let cutoff = 1500;
             lastPeriod = lastIndexOf 46 cutoff summaryText;
             lastQuestion = lastIndexOf 63 cutoff summaryText;
             lastExclaim = lastIndexOf 33 cutoff summaryText;
             bestCutoff = max (max lastPeriod lastQuestion) lastExclaim
         in if 500 < bestCutoff then substring 0 (nat (bestCutoff + 1)) summaryText
            else substring 0 1500 summaryText)
      else summaryText)"

definition isAssessmentSection :: "lowering \<Rightarrow> ReportSection \<Rightarrow> bool" where
  "isAssessmentSection lc s =
     (includesStr (toLowerCase lc (section_title s)) (js ''overall'')
      \<or> includesStr (toLowerCase lc (section_title s)) (js ''assessment''))"

definition extractOverallAssessment :: "lowering \<Rightarrow> ReportSection list \<Rightarrow> jsstring \<Rightarrow> OverallAssessment" where
  "extractOverallAssessment lc secs rawContent =
     (let defaultAssessment = \<lparr> level = js ''Unknown'', archetype = js ''Unknown'',
                                summary = js ''No assessment available.'' \<rparr>;
          assessmentSection = find (isAssessmentSection lc) secs
      in if assessmentSection = None \<and> rawContent = [] then defaultAssessment
         else
           (let sectionContent = (case assessmentSection of Some s \<Rightarrow> section_content s | None \<Rightarrow> []);
                content = (if sectionContent = [] then rawContent else sectionContent);
                a1 = (case regexMatch archetypeRegex content of
                        Some (i, j, caps) \<Rightarrow>
                          defaultAssessment\<lparr> archetype :=
                            substring 0 100 (trim (replaceAll boldMarker [] (group caps 1))) \<rparr>
                      | None \<Rightarrow> defaultAssessment);
                a2 = (case regexMatch levelRegex content of
                        Some (i, j, caps) \<Rightarrow>
                          a1\<lparr> level :=
                            substring 0 100 (trim (replaceAll boldMarker [] (group caps 1))) \<rparr>
                      | None \<Rightarrow> a1)
            in if sectionContent \<noteq> [] then
                 (let summaryText =
                        truncateSummary
                          (trim (replaceAll boldMarker []
                             (replaceAll levelLineRegex []
                                (replaceAll archetypeLineRegex [] sectionContent))))
                  in a2\<lparr> summary := (if summaryText = [] then summary a2 else summaryText) \<rparr>)
               else a2))"

section \<open>Opponent game plan\<close>

text \<open>
  The expression of \<^verbatim>\<open>extractOpponentGamePlan\<close> (flag \<^verbatim>\<open>i\<close>): hashes or an optional pair
  of asterisks, an optional quote, the heading, an optional quote, an optional pair of
  asterisks, colons and white space, an optional line feed, group 1 (lazy, any code
  units), up to the first place where the text goes on with the words Corner AI
  (after an optional pair of asterisks), a hash, three dashes, three line feeds, or
  ends.
\<close>

definition quoteClass :: "jschar \<Rightarrow> bool" where
  "quoteClass c = (c = 34 \<or> c = 39)"

definition gamePlanRegex :: regex where
  "gamePlanRegex =
     seqs [Alt (plus (chr 35)) (opt (lit (js ''**''))),
           opt (Atom quoteClass), liti (js ''IF I WERE YOUR OPPONENT''), opt (Atom quoteClass),
           opt (lit (js ''**'')), star (Atom (orWhiteSpace (js '':''))), opt (chr NL),
           Group 1 (lazyStar (Atom anyChar)),
           Look (alts [Cat (opt (lit (js ''**''))) (liti (js ''Corner AI'')), chr 35,
                       lit (js ''---''), lit [NL, NL, NL], Eol])]"

definition edgeQuoteRegex :: regex where
  "edgeQuoteRegex = Alt (Cat Bol (Atom quoteClass)) (Cat (Atom quoteClass) Eol)"

definition verdictRegex :: regex where
  "verdictRegex = seqs [lit (js ''**''), liti (js ''Corner AI''), star (Atom anyChar), Eol]"

definition extractOpponentGamePlan :: "jsstring \<Rightarrow> jsstring option" where
  "extractOpponentGamePlan rawContent =
     (case regexMatch gamePlanRegex rawContent of
        Some (i, j, caps) \<Rightarrow>
          Some (substring 0 1500
                 (trim (replaceFirst verdictRegex []
                    (replaceAll edgeQuoteRegex [] (trim (group caps 1))))))
      | None \<Rightarrow> None)"

section \<open>The report\<close>

definition validateReport :: "Finding list \<Rightarrow> Finding list \<Rightarrow> jsstring list" where
  "validateReport fs ss =
     (let lowEvidenceFindings =
            filter (\<lambda>f. finding_instanceCount f < 2 \<and> finding_confidence f \<noteq> inconclusive) fs;
          w1 = (if 0 < length lowEvidenceFindings
                then [toString (length lowEvidenceFindings)
                        @ js '' finding(s) have limited timestamp evidence.'']
                else []);
          w2 = (if length ss = 0 then [js ''No strengths were identified in this analysis.'']
                else []);
          criticalCount = length (filter (\<lambda>f. finding_severity f = critical) fs);
          w3 = (if 5 < criticalCount
                then [js ''High number of critical findings - review may be over-sensitive.'']
                else [])
      in w1 @ w2 @ w3)"

text \<open>
  \<^verbatim>\<open>parseSelfScoutReport\<close>. \<open>now\<close> stands for \<^verbatim>\<open>new Date()\<close>. The identifiers are drawn in
  the order of the source: one for every finding pushed (before the duplicates are
  dropped), then one for every strength pushed, then the one of the report.
\<close>

definition parseSelfScoutReport ::
  "lowering \<Rightarrow> uuidgen \<Rightarrow> nat \<Rightarrow> jsstring \<Rightarrow> AnalysisType \<Rightarrow> SelfScoutReport" where
  "parseSelfScoutReport lc uuid now rawContent analysisType =
     (let secs = parseReportSections lc rawContent;
          allTimestamps = sort_key ts_seconds (extractTimestamps lc rawContent);
          fs = extractFindings lc uuid 0 secs rawContent;
          n1 = length (collectFindings lc uuid 0 (filter (titleHasKeyword lc findingSectionKeywords) secs));
          ss = extractStrengths lc uuid n1 secs rawContent;
          n2 = n1 + length (collectStrengths lc uuid n1 (filter (titleHasKeyword lc strengthKeywords) secs));
          improvements = extractImprovements lc secs rawContent;
          assessment = extractOverallAssessment lc secs rawContent;
          gamePlan = extractOpponentGamePlan rawContent;
          meta = \<lparr> totalFindings = length fs,
                   criticalCount = length (filter (\<lambda>f. finding_severity f = critical) fs),
                   highCount = length (filter (\<lambda>f. finding_severity f = high) fs),
                   mediumCount = length (filter (\<lambda>f. finding_severity f = medium) fs),
                   lowCount = length (filter (\<lambda>f. finding_severity f = low) fs),
                   validationWarnings = validateReport fs ss \<rparr>
      in \<lparr> report_id = uuid n2,
           report_generatedAt = now,
           report_analysisType = analysisType,
           report_overallAssessment = assessment,
           report_findings = fs,
           report_strengths = ss,
           report_priorityImprovements = improvements,
           report_opponentGamePlan = gamePlan,
           report_sections = secs,
           report_timestamps = allTimestamps,
           report_metadata = meta,
           report_rawContent = rawContent \<rparr>)"

section \<open>Auxiliary notions of the properties\<close>

text \<open>A finding without its generated identifier.\<close>

definition eraseId :: "Finding \<Rightarrow> Finding" where
  "eraseId f = f\<lparr> finding_id := [] \<rparr>"

text \<open>
  The severity keywords of \<^verbatim>\<open>inferSeverity\<close>, and the test that none of them occurs in the
  lowered title and text.
\<close>

definition severityKeywords :: "string list" where
  "severityKeywords =
     [''critical'', ''major hole'', ''biggest'', ''high'', ''significant'', ''dangerous'',
      ''low'', ''minor'', ''small'']"

definition severityKeywordFree :: "lowering \<Rightarrow> jsstring \<Rightarrow> jsstring \<Rightarrow> bool" where
  "severityKeywordFree lc sectionTitle text =
     (\<not> list_ex (\<lambda>kw. includesStr (toLowerCase lc (sectionTitle @ js '' '' @ text)) (js kw))
          severityKeywords)"

text \<open>The test of \<^verbatim>\<open>extractFindingsFromSection\<close> that a line of a section gives a finding.\<close>

definition isFindingLine :: "jsstring \<Rightarrow> bool" where
  "isFindingLine line =
     (regexTest findingItemRegex (trim line) \<and> 15 < length (trim line)
      \<and> 10 < length (itemText (trim line)))"

text \<open>
  The indexes, among the lines of the content of a section, of the lines that give a
  finding: the values of \<^verbatim>\<open>index\<close> in \<^verbatim>\<open>lines.forEach((line, index) => ...)\<close> at which a
  finding is pushed.
\<close>

definition findingLineIndexes :: "ReportSection \<Rightarrow> nat list" where
  "findingLineIndexes sec =
     map fst (filter (\<lambda>(index, line). isFindingLine line)
                (List.enumerate 0 (split NL (section_content sec))))"

text \<open>
  The lines of a report: a heading is a line that is not blank and passes the header
  test of \<^verbatim>\<open>parseReportSections\<close>, a hash heading one that passes it in its first form.
  A report has a preamble when a line that is not blank comes before its first heading.
\<close>

definition isHeaderLine :: "jsstring \<Rightarrow> bool" where
  "isHeaderLine line = (trim line \<noteq> [] \<and> headerTitle (trim line) \<noteq> None)"

definition isHashHeaderLine :: "jsstring \<Rightarrow> bool" where
  "isHashHeaderLine line = (trim line \<noteq> [] \<and> regexMatch hashHeaderRegex (trim line) \<noteq> None)"

definition titleOfLine :: "jsstring \<Rightarrow> jsstring" where
  "titleOfLine line = (case headerTitle (trim line) of Some title \<Rightarrow> title | None \<Rightarrow> [])"

definition hasPreamble :: "jsstring list \<Rightarrow> bool" where
  "hasPreamble ls = list_ex (\<lambda>l. trim l \<noteq> []) (takeWhile (\<lambda>l. \<not> isHeaderLine l) ls)"

text \<open>
  The end of \<^verbatim>\<open>parseReportSections\<close>: the section that is open after the last line is
  closed and pushed. \<open>sectionHead\<close> is what identifies a section in the result.
\<close>

definition pushLast :: "lowering \<Rightarrow> ReportSection list \<times> ReportSection option \<Rightarrow> ReportSection list" where
  "pushLast lc st = fst st @ (case snd st of Some cur \<Rightarrow> [finalizeSection lc cur] | None \<Rightarrow> [])"

definition sectionHead :: "ReportSection \<Rightarrow> jsstring \<times> jsstring" where
  "sectionHead s = (section_id s, section_title s)"

definition headOfLine :: "lowering \<Rightarrow> jsstring \<Rightarrow> jsstring \<times> jsstring" where
  "headOfLine lc line = (generateSectionId lc (titleOfLine line), titleOfLine line)"

text \<open>
  What a line adds to the content of the open section: the line and a line feed, or
  the line feed alone when the line is blank.
\<close>

definition lineText :: "jsstring \<Rightarrow> jsstring" where
  "lineText l = (if trim l = [] then [NL] else l @ [NL])"

text \<open>
  The lines of a report by hash heading: every heading with the lines that follow it up
  to the next heading. The lines of the preamble start at the first line that is not
  blank and end before the first heading.
\<close>

fun headingChunks :: "jsstring list \<Rightarrow> (jsstring \<times> jsstring list) list" where
  "headingChunks [] = []"
| "headingChunks (l # ls) =
     (if isHashHeaderLine l then (l, takeWhile (\<lambda>x. \<not> isHashHeaderLine x) ls) # headingChunks ls
      else headingChunks ls)"

definition preambleLines :: "jsstring list \<Rightarrow> jsstring list" where
  "preambleLines ls = dropWhile (\<lambda>l. trim l = []) (takeWhile (\<lambda>l. \<not> isHashHeaderLine l) ls)"

text \<open>
  A section as \<^verbatim>\<open>parseReportSections\<close> returns it, closed: its content is the text of its
  lines, trimmed, and its timestamps are those of that content.
\<close>

definition closedSection :: "lowering \<Rightarrow> jsstring \<Rightarrow> jsstring \<Rightarrow> jsstring list \<Rightarrow> ReportSection" where
  "closedSection lc ident title ls =
     \<lparr> section_id = ident, section_title = title,
       section_content = trim (concat (map lineText ls)),
       section_timestamps = extractTimestamps lc (trim (concat (map lineText ls))) \<rparr>"

definition headingSection :: "lowering \<Rightarrow> jsstring \<times> jsstring list \<Rightarrow> ReportSection" where
  "headingSection lc chunk =
     closedSection lc (generateSectionId lc (titleOfLine (fst chunk))) (titleOfLine (fst chunk))
       (snd chunk)"

text \<open>A section with the seconds of its timestamps, for the examples.\<close>

definition sectionView :: "ReportSection \<Rightarrow> jsstring \<times> jsstring \<times> jsstring \<times> nat list" where
  "sectionView s =
     (section_id s, section_title s, section_content s, map ts_seconds (section_timestamps s))"

text \<open>
  Two notions for reasoning about the matcher: every code unit that the atoms of an
  expression accept satisfies \<open>P\<close>; and a state \<open>st'\<close> is reached from \<open>st\<close> by consuming
  code units that satisfy \<open>P\<close>.
\<close>

fun atomsSat :: "(jschar \<Rightarrow> bool) \<Rightarrow> regex \<Rightarrow> bool" where
  "atomsSat P (Atom p) = (\<forall>c. p c \<longrightarrow> P c)"
| "atomsSat P Eps = True"
| "atomsSat P (Cat a b) = (atomsSat P a \<and> atomsSat P b)"
| "atomsSat P (Alt a b) = (atomsSat P a \<and> atomsSat P b)"
| "atomsSat P (Rep mn mx greedy r) = atomsSat P r"
| "atomsSat P (Group n r) = atomsSat P r"
| "atomsSat P Bol = True"
| "atomsSat P Eol = True"
| "atomsSat P (Look r) = True"

definition advances :: "(jschar \<Rightarrow> bool) \<Rightarrow> mstate \<Rightarrow> mstate \<Rightarrow> bool" where
  "advances P st st' =
     (\<exists>w. list_all P w \<and> fst (snd st) = w @ fst (snd st') \<and> fst st' = fst st + length w)"

definition notOpening :: "jschar \<Rightarrow> bool" where
  "notOpening c = (c \<noteq> 91 \<and> c \<noteq> 40)"

text \<open>The code units of the long example summary below: \<^verbatim>\<open>x\<close>, \<^verbatim>\<open>y\<close> and the full stop.\<close>

definition plainChar :: "jschar \<Rightarrow> bool" where
  "plainChar c = (c = 120 \<or> c = 121 \<or> c = 46)"

section \<open>Example inputs\<close>

definition exampleUuid :: uuidgen where
  "exampleUuid n = js ''uuid-'' @ toString n"

text \<open>
  A lowering for the closed statements about the examples. The strings of the examples
  hold code units below 256 only, so that the lowering is never consulted: what the
  parser returns on them is the same for every lowering.
\<close>

definition exampleLowering :: lowering where
  "exampleLowering s = s"

definition decisionExample :: jsstring where
  "decisionExample =
     js ''## DECISION TREE'' @ [NL] @
     js ''- IF **jabs lazily** THEN **slip outside** [0:12]'' @ [NL]"

definition prefixExample :: jsstring where
  "prefixExample =
     js ''## WEAKNESSES'' @ [NL] @
     js ''He backs straight up in round 2. Then drops his hands'' @ [NL]"

definition severityExample :: jsstring where
  "severityExample =
     js ''## WEAKNESSES'' @ [NL] @
     js ''1. Drops the left arm after every jab'' @ [NL, NL] @
     js ''2. Circles into the power hand'' @ [NL, NL] @
     js ''3. Reaches with the chin up'' @ [NL, NL] @
     js ''4. Stands tall at the end of exchanges'' @ [NL]"

definition strengthsExample :: jsstring where
  "strengthsExample =
     js ''## STRENGTHS'' @ [NL] @
     js ''- Sharp counter right hand [0:50]'' @ [NL] @
     js ''- Heavy kicks to the lead leg [0:10]'' @ [NL]"

definition duplicateA :: Finding where
  "duplicateA =
     \<lparr> finding_id = js ''a'', finding_title = js ''Drops hands'',
       finding_description = js ''**Drops hands** after the jab'', finding_severity = high,
       finding_category = striking, finding_instanceCount = 1, finding_confidence = conf_low,
       finding_timestamps = [], finding_counterEvidence = None \<rparr>"

definition duplicateB :: Finding where
  "duplicateB =
     \<lparr> finding_id = js ''b'', finding_title = js ''DROPS HANDS'',
       finding_description = js ''**DROPS HANDS** when tired'', finding_severity = medium,
       finding_category = striking, finding_instanceCount = 1, finding_confidence = conf_low,
       finding_timestamps = [], finding_counterEvidence = None \<rparr>"

definition sectionsExample :: jsstring where
  "sectionsExample =
     js ''Scouting notes'' @ [NL] @ js ''## Strengths'' @ [NL] @ js ''- jab [0:05]'' @ [NL, NL] @
     js ''### Habits'' @ [NL] @ js ''- drops hands'' @ [NL]"

definition longAssessment :: ReportSection where
  "longAssessment =
     \<lparr> section_id = js ''overall-assessment'', section_title = js ''OVERALL ASSESSMENT'',
       section_content = replicate 1500 120 @ [46] @ replicate 99 121,
       section_timestamps = [] \<rparr>"

definition longReport :: jsstring where
  "longReport =
     js ''## OVERALL ASSESSMENT'' @ [NL] @ replicate 1500 120 @ [46] @ replicate 99 121"

section \<open>Evaluating the matcher\<close>

text \<open>
  Rules that run the matcher on a given input from left to right, without fuel: the
  result of a quantifier over a single code unit does not depend on the fuel once
  there is enough of it.
\<close>

declare matcher.simps(5) [simp del]
declare execAll.simps [simp del]
declare replaceAllFrom.simps [simp del]

lemma option_case_id: "(case x of None \<Rightarrow> None | Some r \<Rightarrow> Some r) = x"
  by (cases x) auto

lemma repeatMatcher_max0: "repeatMatcher fuel body 0 (Some 0) g k st = k st"
  by (cases fuel) auto

lemma repeatMatcher_step:
  assumes B: "\<And>k i s caps. body k (i, s, caps) =
                (case s of [] \<Rightarrow> None | c # s' \<Rightarrow> if p c then k (Suc i, s', caps) else None)"
  shows "repeatMatcher (Suc fu) body mn mx g k (i, c # s, caps) =
     (if mx = Some 0 then k (i, c # s, caps)
      else if p c then
        (if 0 < mn then
           repeatMatcher fu body (mn - 1) (map_option (\<lambda>n. n - 1) mx) g k (Suc i, s, caps)
         else if g then
           (case repeatMatcher fu body (mn - 1) (map_option (\<lambda>n. n - 1) mx) g k (Suc i, s, caps) of
              Some r \<Rightarrow> Some r | None \<Rightarrow> k (i, c # s, caps))
         else
           (case k (i, c # s, caps) of
              Some r \<Rightarrow> Some r
            | None \<Rightarrow> repeatMatcher fu body (mn - 1) (map_option (\<lambda>n. n - 1) mx) g k (Suc i, s, caps)))
      else if 0 < mn then None else k (i, c # s, caps))"
  by (simp add: B Let_def option_case_id cong: if_cong option.case_cong)

lemma repeatMatcher_fuel:
  assumes B: "\<And>k i s caps. body k (i, s, caps) =
                (case s of [] \<Rightarrow> None | c # s' \<Rightarrow> if p c then k (Suc i, s', caps) else None)"
  shows "mn + length s \<le> fuel \<Longrightarrow>
   repeatMatcher fuel body mn mx g k (i, s, caps) =
   repeatMatcher (mn + length s) body mn mx g k (i, s, caps)"
proof (induction s arbitrary: fuel mn mx i)
  case Nil
  then show ?case
    by (cases fuel; cases mn) (auto simp: B option_case_id)
next
  case (Cons c s)
  then obtain f where f: "fuel = Suc f" and le: "mn + length s \<le> f"
    by (cases fuel) auto
  have "repeatMatcher f body (mn - 1) mx' g k (Suc i, s, caps) =
        repeatMatcher (mn - 1 + length s) body (mn - 1) mx' g k (Suc i, s, caps)" for mx'
    using le by (intro Cons.IH) auto
  moreover have "repeatMatcher (mn + length s) body (mn - 1) mx' g k (Suc i, s, caps) =
        repeatMatcher (mn - 1 + length s) body (mn - 1) mx' g k (Suc i, s, caps)" for mx'
    by (intro Cons.IH) auto
  ultimately have eq: "repeatMatcher f body (mn - 1) mx' g k (Suc i, s, caps) =
        repeatMatcher (mn + length s) body (mn - 1) mx' g k (Suc i, s, caps)" for mx'
    by simp
  have "mn + length (c # s) = Suc (mn + length s)"
    by simp
  then show ?case
    unfolding f by (simp only: repeatMatcher_step [OF B] eq)
qed

lemma repeatMatcher_Cons:
  assumes B: "\<And>k i s caps. body k (i, s, caps) =
                (case s of [] \<Rightarrow> None | c # s' \<Rightarrow> if p c then k (Suc i, s', caps) else None)"
  shows "repeatMatcher (mn + length (c # s)) body mn mx g k (i, c # s, caps) =
     (if mx = Some 0 then k (i, c # s, caps)
      else if p c then
        (if 0 < mn then
           repeatMatcher (mn - 1 + length s) body (mn - 1) (map_option (\<lambda>n. n - 1) mx) g k (i + 1, s, caps)
         else if g then
           (case repeatMatcher (0 + length s) body 0 (map_option (\<lambda>n. n - 1) mx) g k (i + 1, s, caps) of
              Some r \<Rightarrow> Some r | None \<Rightarrow> k (i, c # s, caps))
         else
           (case k (i, c # s, caps) of
              Some r \<Rightarrow> Some r
            | None \<Rightarrow> repeatMatcher (0 + length s) body 0 (map_option (\<lambda>n. n - 1) mx) g k (i + 1, s, caps)))
      else if 0 < mn then None else k (i, c # s, caps))"
proof -
  have eq: "repeatMatcher (mn + length s) body (mn - 1) mx' g k (Suc i, s, caps) =
        repeatMatcher (mn - 1 + length s) body (mn - 1) mx' g k (Suc i, s, caps)" for mx'
    by (intro repeatMatcher_fuel [OF B]) auto
  have len: "mn + length (c # s) = Suc (mn + length s)" and i: "i + 1 = Suc i"
    by simp_all
  show ?thesis
  proof (cases "mn = 0")
    case True
    show ?thesis
      unfolding len i repeatMatcher_step [OF B] eq unfolding True
      by (simp cong: if_cong option.case_cong)
  next
    case False
    then show ?thesis
      unfolding len i repeatMatcher_step [OF B] eq
      by (simp cong: if_cong option.case_cong)
  qed
qed

lemma atom_body:
  "matcher (Atom p) k (i, s, caps) =
     (case s of [] \<Rightarrow> None | c # s' \<Rightarrow> if p c then k (Suc i, s', caps) else None)"
  by (simp split: list.splits)

lemma rep_atom_Nil:
  "matcher (Rep mn mx g (Atom p)) k (i, [], caps) =
     (if mn = 0 then k (i, [], caps) else if mx = Some 0 then k (i, [], caps) else None)"
  by (cases mn) (auto simp: matcher.simps(5))

lemma rep_atom_Cons:
  "matcher (Rep mn mx g (Atom p)) k (i, c # s, caps) =
     (if mx = Some 0 then k (i, c # s, caps)
      else if p c then
        (if 0 < mn then matcher (Rep (mn - 1) (map_option (\<lambda>n. n - 1) mx) g (Atom p)) k (i + 1, s, caps)
         else if g then
           (case matcher (Rep 0 (map_option (\<lambda>n. n - 1) mx) g (Atom p)) k (i + 1, s, caps) of
              Some r \<Rightarrow> Some r | None \<Rightarrow> k (i, c # s, caps))
         else
           (case k (i, c # s, caps) of
              Some r \<Rightarrow> Some r
            | None \<Rightarrow> matcher (Rep 0 (map_option (\<lambda>n. n - 1) mx) g (Atom p)) k (i + 1, s, caps)))
      else if 0 < mn then None else k (i, c # s, caps))"
  unfolding matcher.simps(5) fst_conv snd_conv
  by (rule repeatMatcher_Cons [OF atom_body])

lemma opt_Nil: "matcher (Rep 0 (Some (Suc 0)) True r) k (i, [], caps) = k (i, [], caps)"
  by (simp add: matcher.simps(5))

lemma opt_Cons:
  "matcher (Rep 0 (Some (Suc 0)) True r) k (i, c # s, caps) =
     (case matcher r (\<lambda>st'. if fst st' = i then None else k st') (i, c # s, caps) of
        Some x \<Rightarrow> Some x
      | None \<Rightarrow> k (i, c # s, caps))"
  by (simp add: matcher.simps(5) repeatMatcher_max0 cong: if_cong)

lemma atom_Cons: "matcher (Atom p) k (i, c # s, caps) = (if p c then k (i + 1, s, caps) else None)"
  by simp

lemma atom_Nil: "matcher (Atom p) k (i, [], caps) = None"
  by simp

lemma chri_Cons:
  "matcher (chri c) k (i, x # s, caps) = (if asciiUpper x = asciiUpper c then k (i + 1, s, caps) else None)"
  by (simp add: chri_def)

lemma chri_Nil: "matcher (chri c) k (i, [], caps) = None"
  by (simp add: chri_def)

lemma group_eval:
  "matcher (Group n r) k (i, s, caps) =
     matcher r (\<lambda>st'. k (fst st', fst (snd st'), (snd (snd st'))(n \<mapsto> take (fst st' - i) s))) (i, s, caps)"
  by (simp add: case_prod_unfold)

lemma look_eval:
  "matcher (Look r) k (i, s, caps) =
     (case matcher r Some (i, s, caps) of
        Some st' \<Rightarrow> k (i, s, snd (snd st'))
      | None \<Rightarrow> None)"
  by (simp split: option.splits)

lemma bol_eval: "matcher Bol k (i, s, caps) = (if i = 0 then k (i, s, caps) else None)"
  by simp

lemma eol_eval: "matcher Eol k (i, s, caps) = (if s = [] then k (i, s, caps) else None)"
  by simp

lemma searchFrom_Cons:
  "searchFrom re i (c # s) =
     (case regexAt re i (c # s) of
        Some st' \<Rightarrow> Some (i, fst st', snd (snd st'))
      | None \<Rightarrow> searchFrom re (i + 1) s)"
  by (simp split: option.splits)

lemma searchFrom_Nil:
  "searchFrom re i [] =
     (case regexAt re i [] of Some st' \<Rightarrow> Some (i, fst st', snd (snd st')) | None \<Rightarrow> None)"
  by (simp split: option.splits)

lemma execAll_Nil:
  "execAll re i [] = (case regexAt re i [] of Some st' \<Rightarrow> [(i, fst st', snd (snd st'))] | None \<Rightarrow> [])"
  by (subst execAll.simps) (simp split: option.splits)

lemma execAll_Cons:
  "execAll re i (c # s) =
     (case regexAt re i (c # s) of
        Some st' \<Rightarrow>
          (i, fst st', snd (snd st')) #
            (if length (fst (snd st')) < Suc (length s) then execAll re (fst st') (fst (snd st'))
             else execAll re (i + 1) s)
      | None \<Rightarrow> execAll re (i + 1) s)"
  by (subst execAll.simps) (simp split: option.splits)

lemma replaceAllFrom_Nil:
  "replaceAllFrom re repl i [] = (case regexAt re i [] of Some st' \<Rightarrow> repl | None \<Rightarrow> [])"
  by (subst replaceAllFrom.simps) (simp split: option.splits)

lemma replaceAllFrom_Cons:
  "replaceAllFrom re repl i (c # s) =
     (case regexAt re i (c # s) of
        Some st' \<Rightarrow>
          repl @
            (if length (fst (snd st')) < Suc (length s) then replaceAllFrom re repl (fst st') (fst (snd st'))
             else c # replaceAllFrom re repl (i + 1) s)
      | None \<Rightarrow> c # replaceAllFrom re repl (i + 1) s)"
  by (subst replaceAllFrom.simps) (simp split: option.splits)

lemma startsWith_Cons_eval:
  "startsWith (c # s) (p # ps) = (if c = p then startsWith s ps else False)"
  by simp

lemma includesStr_Cons_eval:
  "includesStr (c # s) p = (if startsWith (c # s) p then True else includesStr s p)"
  by simp

lemmas engine_eval =
  rep_atom_Nil rep_atom_Cons opt_Nil opt_Cons atom_Cons atom_Nil group_eval look_eval bol_eval eol_eval
  searchFrom_Cons searchFrom_Nil execAll_Nil execAll_Cons replaceAllFrom_Nil replaceAllFrom_Cons
  regexAt_def regexMatch_def regexTest_def replaceAll_def replaceFirst_def group_def
  chr_def chri_Cons chri_Nil star_def plus_def opt_def lazyStar_def lazyPlus_def asciiUpper_def

lemmas engine_raw = matcher.simps(1) matcher.simps(6) matcher.simps(7) matcher.simps(8) matcher.simps(9)
  searchFrom.simps

lemmas string_eval =
  js_def NL_def CR_def BULLET_def isWhiteSpace_def isLineTerminator_def dot_def anyChar_def
  isDigit_def oneOf_def noneOf_def orWhiteSpace_def toLowerChar_def isLatin1_def toLowerCase_def trim_def
  substring_def
  Number_def padStart_def startsWith_Cons_eval includesStr_Cons_eval

lemmas string_raw = startsWith.simps(3) includesStr.simps(2)

section \<open>Evaluating the parser\<close>

text \<open>
  Fields of the objects the parser builds, so that a field of a result is computed
  without the others, and the parser run on the example inputs.
\<close>

declare toString.simps [simp del]

lemma split_absent: "c \<notin> set s \<Longrightarrow> split c s = [s]"
  by (induction s) auto

lemma split_at: "c \<notin> set a \<Longrightarrow> split c (a @ c # b) = a # split c b"
  by (induction a) auto

lemma trim_id:
  "s \<noteq> [] \<Longrightarrow> \<not> isWhiteSpace (hd s) \<Longrightarrow> \<not> isWhiteSpace (last s) \<Longrightarrow> trim s = s"
proof -
  assume s: "s \<noteq> []" and h: "\<not> isWhiteSpace (hd s)" and l: "\<not> isWhiteSpace (last s)"
  from s h have "dropWhile isWhiteSpace s = s"
    by (cases s) auto
  moreover from s l have "dropWhile isWhiteSpace (rev s) = rev s"
    by (cases "rev s") (auto simp: last_rev [symmetric] simp del: last_rev)
  ultimately show ?thesis
    by (simp add: trim_def)
qed

lemma timestampOfMatch_seconds:
  "ts_seconds (timestampOfMatch lc text (idx, endIdx, caps)) =
     (case map Number (split 58 (group caps 1)) of
        a # b # rest \<Rightarrow> a * 60 + b | [a] \<Rightarrow> a * 60 | [] \<Rightarrow> 0)"
  by (simp add: timestampOfMatch_def Let_def split: list.splits)

lemma timestampOfMatch_time:
  "ts_time (timestampOfMatch lc text (idx, endIdx, caps)) =
     (case map Number (split 58 (group caps 1)) of
        a # b # rest \<Rightarrow> toString a @ js '':'' @ padStart 2 48 (toString b)
      | [a] \<Rightarrow> toString a @ js '':'' @ padStart 2 48 (toString 0)
      | [] \<Rightarrow> toString 0 @ js '':'' @ padStart 2 48 (toString 0))"
  by (simp add: timestampOfMatch_def Let_def split: list.splits)

lemma makeFinding_fields:
  "finding_id (makeFinding lc uuid n t i text) = uuid n"
  "finding_title (makeFinding lc uuid n t i text) = extractTitle text"
  "finding_description (makeFinding lc uuid n t i text) = text"
  "finding_severity (makeFinding lc uuid n t i text) = inferSeverity lc t text i"
  "finding_timestamps (makeFinding lc uuid n t i text) = extractTimestamps lc text"
  by (simp_all add: makeFinding_def Let_def)

lemma makeStrength_fields:
  "finding_id (makeStrength lc uuid n text) = uuid n"
  "finding_title (makeStrength lc uuid n text) = extractTitle text"
  "finding_description (makeStrength lc uuid n text) = text"
  "finding_severity (makeStrength lc uuid n text) = low"
  "finding_timestamps (makeStrength lc uuid n text) = extractTimestamps lc text"
  by (simp_all add: makeStrength_def Let_def)

lemmas section_eval =
  timestampRegex_def extractTimestamps_def hashHeaderRegex_def boldHeaderClass_def boldHeaderRegex_def
  boldMarker_def generateSectionId_def finalizeSection_def headerTitle_def parseLine_def
  parseReportSections_def titleHasKeyword_def Let_def

lemmas finding_eval =
  findingSectionKeywords_def strengthKeywords_def bulletClass_def findingItemRegex_def listItemRegex_def
  itemPrefixRegex_def itemText_def findingOfLine_def strengthOfLine_def extractFindingsFromSection_def
  extractFindings_def extractStrengths_def deduplicateFindings_def

lemma decision_example_nodes:
  "map (\<lambda>n. (trigger n, response n, map_option ts_seconds (node_timestamp n)))
       (extractDecisionTree lc (parseReportSections lc decisionExample)) =
     [(js ''jabs lazily'', js ''**slip outside** [0:12]'', Some 12)]"
  by (simp add: decisionExample_def engine_eval string_eval section_eval
      decisionRegex_def nodeOfLine_def extractDecisionTree_def List.map_filter_def
      bulletClass_def timestampOfMatch_seconds del: engine_raw string_raw)

lemma prefix_example_findings:
  "map finding_description
       (extractFindings lc exampleUuid 0 (parseReportSections lc prefixExample) prefixExample) =
     [js ''He backs straight up in round Then drops his hands'']"
  by (simp add: prefixExample_def engine_eval string_eval section_eval finding_eval
      makeFinding_fields del: engine_raw string_raw)

lemma severity_example_findings:
  "map (\<lambda>f. (finding_description f, finding_severity f))
       (extractFindings lc exampleUuid 0 (parseReportSections lc severityExample) severityExample) =
     [(js ''Drops the left arm after every jab'', high),
      (js ''Circles into the power hand'', high),
      (js ''Reaches with the chin up'', medium),
      (js ''Stands tall at the end of exchanges'', low)]"
  by (simp add: severityExample_def engine_eval string_eval section_eval finding_eval
      makeFinding_fields inferSeverity_def dedupKey_def extractTitle_def boldTitleRegex_def
      firstSentenceOf_def stripTimestamps_def earliest_def del: engine_raw string_raw)

lemma severity_example_keywords:
  "severityKeywordFree lc (js ''WEAKNESSES'') (js ''Drops the left arm after every jab'')"
  "severityKeywordFree lc (js ''WEAKNESSES'') (js ''Circles into the power hand'')"
  "severityKeywordFree lc (js ''WEAKNESSES'') (js ''Reaches with the chin up'')"
  "severityKeywordFree lc (js ''WEAKNESSES'') (js ''Stands tall at the end of exchanges'')"
  by (simp_all add: severityKeywordFree_def severityKeywords_def string_eval del: string_raw)


subsection \<open>Severity and the index of the line\<close>

lemma findingOfLine_cases:
  "findingOfLine lc uuid n t i line =
     (if isFindingLine line then Some (makeFinding lc uuid n t i (itemText (trim line))) else None)"
  by (simp add: findingOfLine_def isFindingLine_def Let_def)

lemma findingsOfLines_enumerate:
  "map (\<lambda>f. (finding_description f, finding_severity f)) (findingsOfLines lc uuid n t idx ls) =
   map (\<lambda>(i, line). (itemText (trim line), inferSeverity lc t (itemText (trim line)) i))
     (filter (\<lambda>(i, line). isFindingLine line) (List.enumerate idx ls))"
  by (induction ls arbitrary: n idx) (simp_all add: findingOfLine_cases makeFinding_fields)

lemma inferSeverity_position:
  "severityKeywordFree lc t text \<Longrightarrow>
   inferSeverity lc t text i = (if i \<le> 2 then high else if i \<le> 5 then medium else low)"
  by (simp add: inferSeverity_def severityKeywordFree_def severityKeywords_def Let_def)



section \<open>Deduplication, sorting and identifiers\<close>

subsection \<open>The filter of duplicates\<close>

lemma dedupLoop_index:
  "dedupLoop lc seen fs =
     map ((!) fs) (filter (\<lambda>i. dedupKey lc (fs ! i) \<notin> seen \<union> dedupKey lc ` set (take i fs)) [0..<length fs])"
proof (induction fs arbitrary: seen)
  case Nil
  then show ?case by simp
next
  case (Cons f fs)
  let ?P = "\<lambda>i. dedupKey lc ((f # fs) ! i) \<notin> seen \<union> dedupKey lc ` set (take i (f # fs))"
  have upt: "[0..<length (f # fs)] = 0 # map Suc [0..<length fs]"
    by (simp add: upt_conv_Cons map_Suc_upt del: upt_Suc)
  have zero: "?P 0 = (dedupKey lc f \<notin> seen)"
    by simp
  show ?case
  proof (cases "dedupKey lc f \<in> seen")
    case True
    have F: "filter ?P (map Suc [0..<length fs]) =
        map Suc (filter (\<lambda>i. dedupKey lc (fs ! i) \<notin> seen \<union> dedupKey lc ` set (take i fs)) [0..<length fs])"
      unfolding filter_map comp_def
      by (rule arg_cong [where f = "map Suc"], rule filter_cong) (use True in auto)
    have "map ((!) (f # fs)) (filter ?P [0..<length (f # fs)]) =
        map ((!) fs) (filter (\<lambda>i. dedupKey lc (fs ! i) \<notin> seen \<union> dedupKey lc ` set (take i fs)) [0..<length fs])"
      unfolding upt filter.simps zero F using True by (simp add: comp_def)
    then show ?thesis
      using True Cons.IH [of seen] by simp
  next
    case False
    have F: "filter ?P (map Suc [0..<length fs]) =
        map Suc (filter (\<lambda>i. dedupKey lc (fs ! i) \<notin> insert (dedupKey lc f) seen \<union> dedupKey lc ` set (take i fs))
                   [0..<length fs])"
      unfolding filter_map comp_def
      by (rule arg_cong [where f = "map Suc"], rule filter_cong) auto
    have "map ((!) (f # fs)) (filter ?P [0..<length (f # fs)]) =
        f # map ((!) fs)
          (filter (\<lambda>i. dedupKey lc (fs ! i) \<notin> insert (dedupKey lc f) seen \<union> dedupKey lc ` set (take i fs))
             [0..<length fs])"
      unfolding upt filter.simps zero F using False by (simp add: comp_def)
    then show ?thesis
      using False Cons.IH [of "insert (dedupKey lc f) seen"] by simp
  qed
qed

lemma in_set_take_conv: "i \<le> length xs \<Longrightarrow> (x \<in> set (take i xs)) = (\<exists>j<i. xs ! j = x)"
  by (auto simp: in_set_conv_nth)

lemma dedup_first_occurrence:
  "deduplicateFindings lc fs =
     map ((!) fs) (filter (\<lambda>i. \<forall>j<i. dedupKey lc (fs ! j) \<noteq> dedupKey lc (fs ! i)) [0..<length fs])"
proof -
  have "(dedupKey lc (fs ! i) \<notin> dedupKey lc ` set (take i fs)) = (\<forall>j<i. dedupKey lc (fs ! j) \<noteq> dedupKey lc (fs ! i))"
    if "i < length fs" for i
  proof -
    have "(x \<in> set (take i fs)) = (\<exists>j<i. fs ! j = x)" for x
      using that by (intro in_set_take_conv) simp
    then have "(dedupKey lc (fs ! i) \<in> dedupKey lc ` set (take i fs))
        = (\<exists>j<i. dedupKey lc (fs ! j) = dedupKey lc (fs ! i))"
      unfolding image_iff Bex_def by auto
    then show ?thesis by auto
  qed
  then have "filter (\<lambda>i. dedupKey lc (fs ! i) \<notin> {} \<union> dedupKey lc ` set (take i fs)) [0..<length fs]
           = filter (\<lambda>i. \<forall>j<i. dedupKey lc (fs ! j) \<noteq> dedupKey lc (fs ! i)) [0..<length fs]"
    by (intro filter_cong) auto
  then show ?thesis
    by (simp add: deduplicateFindings_def dedupLoop_index)
qed

lemma dedupKey_take: "dedupKey lc f = take 30 (toLowerCase lc (finding_title f))"
  by (simp add: dedupKey_def substring_def min_def)

lemma subseq_dedupLoop: "subseq (dedupLoop lc seen fs) fs"
  by (induction fs arbitrary: seen) auto

lemma dedupLoop_map:
  "(\<And>f. dedupKey lc (g f) = dedupKey lc f) \<Longrightarrow> map g (dedupLoop lc seen fs) = dedupLoop lc seen (map g fs)"
  by (induction fs arbitrary: seen) auto

subsection \<open>Sorting\<close>

lemma insort_key_map:
  "(\<And>x. k (g x) = k x) \<Longrightarrow> map g (insort_key k x xs) = insort_key k (g x) (map g xs)"
  by (induction xs) auto

lemma sort_key_map:
  "(\<And>x. k (g x) = k x) \<Longrightarrow> map g (sort_key k xs) = sort_key k (map g xs)"
  by (induction xs) (auto simp: insort_key_map)

lemma earliest_infinity: "(earliest f = \<infinity>) = (finding_timestamps f = [])"
proof -
  have "min (enat a) m \<noteq> \<infinity>" for a m
    by (cases m) (auto simp: min_def)
  then have "foldr (\<lambda>t m. min (enat (ts_seconds t)) m) ts \<infinity> \<noteq> \<infinity>" if "ts \<noteq> []" for ts :: "Timestamp list"
    using that by (cases ts) auto
  then show ?thesis
    by (cases "finding_timestamps f = []") (auto simp: earliest_def)
qed

subsection \<open>Identifiers\<close>

lemma eraseId_simps:
  "dedupKey lc (eraseId f) = dedupKey lc f" "earliest (eraseId f) = earliest f"
  by (simp_all add: eraseId_def dedupKey_def earliest_def)

lemma eraseId_makeFinding:
  "eraseId (makeFinding lc uuid1 n1 t i text) = eraseId (makeFinding lc uuid2 n2 t i text)"
  by (simp add: eraseId_def makeFinding_def Let_def)

lemma eraseId_makeStrength:
  "eraseId (makeStrength lc uuid1 n1 text) = eraseId (makeStrength lc uuid2 n2 text)"
  by (simp add: eraseId_def makeStrength_def Let_def)

lemma findingOfLine_eraseId:
  "map_option eraseId (findingOfLine lc uuid1 n1 t i line) = map_option eraseId (findingOfLine lc uuid2 n2 t i line)"
  by (simp add: findingOfLine_def Let_def eraseId_makeFinding)

lemma strengthOfLine_eraseId:
  "map_option eraseId (strengthOfLine lc uuid1 n1 line) = map_option eraseId (strengthOfLine lc uuid2 n2 line)"
  by (simp add: strengthOfLine_def Let_def eraseId_makeStrength)

lemma findingsOfLines_eraseId:
  "map eraseId (findingsOfLines lc uuid1 n1 t i ls) = map eraseId (findingsOfLines lc uuid2 n2 t i ls)"
proof (induction ls arbitrary: n1 n2 i)
  case Nil
  then show ?case by simp
next
  case (Cons l ls)
  from findingOfLine_eraseId [of lc uuid1 n1 t i l uuid2 n2] Cons.IH show ?case
    by (auto split: option.splits)
qed

lemma strengthsOfLines_eraseId:
  "map eraseId (strengthsOfLines lc uuid1 n1 ls) = map eraseId (strengthsOfLines lc uuid2 n2 ls)"
proof (induction ls arbitrary: n1 n2)
  case Nil
  then show ?case by simp
next
  case (Cons l ls)
  from strengthOfLine_eraseId [of lc uuid1 n1 l uuid2 n2] Cons.IH show ?case
    by (auto split: option.splits)
qed

lemma collectFindings_eraseId:
  "map eraseId (collectFindings lc uuid1 n1 ss) = map eraseId (collectFindings lc uuid2 n2 ss)"
proof (induction ss arbitrary: n1 n2)
  case Nil
  then show ?case by simp
next
  case (Cons s ss)
  show ?case
    using findingsOfLines_eraseId [of lc uuid1 n1 _ 0 _ uuid2 n2] Cons.IH
    by (simp add: Let_def extractFindingsFromSection_def)
qed

lemma collectStrengths_eraseId:
  "map eraseId (collectStrengths lc uuid1 n1 ss) = map eraseId (collectStrengths lc uuid2 n2 ss)"
proof (induction ss arbitrary: n1 n2)
  case Nil
  then show ?case by simp
next
  case (Cons s ss)
  show ?case
    using strengthsOfLines_eraseId [of lc uuid1 n1 _ uuid2 n2] Cons.IH
    by (simp add: Let_def)
qed



lemma strengths_example_keys:
  "map earliest (extractStrengths lc exampleUuid 0 (parseReportSections lc strengthsExample) strengthsExample)
     = [enat 50, enat 10]"
  by (simp add: strengthsExample_def engine_eval string_eval section_eval finding_eval
      makeStrength_fields dedupKey_def extractTitle_def boldTitleRegex_def firstSentenceOf_def
      stripTimestamps_def earliest_def timestampOfMatch_seconds
      del: engine_raw string_raw)

section \<open>The order of findings and strengths\<close>

text \<open>
  Claim C4, as the specification states it, says that the strengths are sorted by
  their earliest timestamp too. \<^verbatim>\<open>extractStrengths\<close> does not sort: on the example the
  strength seen at 0:50 stays before the one seen at 0:10.
\<close>

theorem strengths_unsorted_counterexample:
  "\<not> sorted (map earliest
       (extractStrengths exampleLowering exampleUuid 0
          (parseReportSections exampleLowering strengthsExample) strengthsExample))"
  by (simp add: strengths_example_keys)

text \<open>
  Claim C4, amended. The findings returned by \<^verbatim>\<open>extractFindings\<close> are sorted in ascending
  order of the earliest timestamp of each item, where the key of an item is infinite
  exactly when it has no timestamp, so that such items come last. The strengths
  returned by \<^verbatim>\<open>extractStrengths\<close> are not sorted: they keep the order in which they were
  read from the sections.
\<close>

theorem findings_sorted_strengths_in_order:
  "sorted (map earliest (extractFindings lc uuid n secs raw))
   \<and> (earliest f = \<infinity>) = (finding_timestamps f = [])
   \<and> subseq (extractStrengths lc uuid n secs raw)
        (collectStrengths lc uuid n (filter (titleHasKeyword lc strengthKeywords) secs))"
  by (simp add: extractFindings_def extractStrengths_def deduplicateFindings_def Let_def
      earliest_infinity subseq_dedupLoop)

section \<open>Duplicates\<close>

text \<open>
  Claim C5. The key of an item is the first 30 code units of its lowered title, for
  every lowering \<open>lc\<close> of the strings that hold a code unit from 256 on. Of the
  items that share a key \<^verbatim>\<open>deduplicateFindings\<close> keeps the first in the order of its
  input and drops every later one: the result is the items at the indexes that no
  smaller index shares the key with. \<^verbatim>\<open>extractFindings\<close> sorts after it has dropped the
  duplicates, and \<^verbatim>\<open>extractStrengths\<close> does not sort, so the item kept is the first in
  source order.
\<close>

theorem dedup_keeps_first:
  "deduplicateFindings lc fs =
     map ((!) fs) (filter (\<lambda>i. \<forall>j<i. dedupKey lc (fs ! j) \<noteq> dedupKey lc (fs ! i)) [0..<length fs])
   \<and> dedupKey lc f = take 30 (toLowerCase lc (finding_title f))
   \<and> extractFindings lc uuid n secs raw =
       sort_key earliest (deduplicateFindings lc
         (collectFindings lc uuid n (filter (titleHasKeyword lc findingSectionKeywords) secs)))
   \<and> extractStrengths lc uuid n secs raw =
       deduplicateFindings lc
         (collectStrengths lc uuid n (filter (titleHasKeyword lc strengthKeywords) secs))"
  using dedup_first_occurrence [of lc fs]
  by (simp add: dedupKey_take extractFindings_def extractStrengths_def Let_def)

theorem dedup_keeps_first_witness:
  "deduplicateFindings exampleLowering [duplicateA, duplicateB] = [duplicateA]"
  using dedup_keeps_first
    [of exampleLowering "[duplicateA, duplicateB]" duplicateA exampleUuid 0 "[]" "[]"]
  by (simp add: duplicateA_def duplicateB_def dedupKey_def string_eval upt_rec del: string_raw)

subsection \<open>Where the findings come from\<close>

lemma set_dedupLoop: "set (dedupLoop lc seen fs) \<subseteq> set fs"
  by (induction fs arbitrary: seen) auto

lemma set_collectFindings:
  "set (collectFindings lc uuid n ss) \<subseteq> (\<Union>sec\<in>set ss. \<Union>n'. set (extractFindingsFromSection lc uuid n' sec))"
proof (induction ss arbitrary: n)
  case Nil
  then show ?case by simp
next
  case (Cons s ss)
  from Cons.IH [of "n + length (extractFindingsFromSection lc uuid n s)"] show ?case
    by (auto simp: Let_def)
qed

lemma extractFindings_from_sections:
  "set (extractFindings lc uuid n secs raw) \<subseteq>
     (\<Union>sec\<in>set secs. \<Union>n'. set (extractFindingsFromSection lc uuid n' sec))"
proof -
  have "set (extractFindings lc uuid n secs raw)
      \<subseteq> set (collectFindings lc uuid n (filter (titleHasKeyword lc findingSectionKeywords) secs))"
    using set_dedupLoop by (simp add: extractFindings_def deduplicateFindings_def Let_def)
  also have "\<dots> \<subseteq> (\<Union>sec\<in>set (filter (titleHasKeyword lc findingSectionKeywords) secs).
      \<Union>n'. set (extractFindingsFromSection lc uuid n' sec))"
    by (rule set_collectFindings)
  also have "\<dots> \<subseteq> (\<Union>sec\<in>set secs. \<Union>n'. set (extractFindingsFromSection lc uuid n' sec))"
    by auto
  finally show ?thesis .
qed


section \<open>Severity by position\<close>

text \<open>
  \<^verbatim>\<open>extractFindingsFromSection\<close> gives one finding for each line of the section content
  that passes its tests, in the order of the lines. When no severity keyword occurs in
  the lowered section title and text of a finding, \<^verbatim>\<open>inferSeverity\<close> decides by the index
  it is given, and the index it is given is the one of the line among all the lines of
  the section content: the source passes the index of \<^verbatim>\<open>lines.forEach\<close> and keeps no
  count of the findings pushed. Every finding that \<^verbatim>\<open>extractFindings\<close> returns is a
  finding of one of its sections.
\<close>

lemma severity_by_line_index:
  "length (extractFindingsFromSection lc uuid n sec) = length (findingLineIndexes sec)
   \<and> (\<forall>k < length (extractFindingsFromSection lc uuid n sec).
        severityKeywordFree lc (section_title sec)
          (finding_description (extractFindingsFromSection lc uuid n sec ! k)) \<longrightarrow>
        finding_severity (extractFindingsFromSection lc uuid n sec ! k) =
          (if findingLineIndexes sec ! k \<le> 2 then high
           else if findingLineIndexes sec ! k \<le> 5 then medium else low))
   \<and> set (extractFindings lc uuid n secs raw) \<subseteq>
       (\<Union>s\<in>set secs. \<Union>n'. set (extractFindingsFromSection lc uuid n' s))"
proof -
  let ?fs = "extractFindingsFromSection lc uuid n sec"
  let ?items = "filter (\<lambda>(i, line). isFindingLine line) (List.enumerate 0 (split NL (section_content sec)))"
  have eq: "map (\<lambda>f. (finding_description f, finding_severity f)) ?fs =
      map (\<lambda>(i, line). (itemText (trim line), inferSeverity lc (section_title sec) (itemText (trim line)) i)) ?items"
    unfolding extractFindingsFromSection_def by (rule findingsOfLines_enumerate)
  from arg_cong [OF eq, of length] have len: "length ?fs = length ?items"
    by simp
  have sev: "finding_severity (?fs ! k) =
      (if findingLineIndexes sec ! k \<le> 2 then high
       else if findingLineIndexes sec ! k \<le> 5 then medium else low)"
    if k: "k < length ?fs" and free: "severityKeywordFree lc (section_title sec) (finding_description (?fs ! k))" for k
  proof -
    obtain i line where il: "?items ! k = (i, line)"
      by (cases "?items ! k")
    have "map (\<lambda>f. (finding_description f, finding_severity f)) ?fs ! k =
      map (\<lambda>(i, line). (itemText (trim line), inferSeverity lc (section_title sec) (itemText (trim line)) i)) ?items ! k"
      by (simp only: eq)
    then have "(finding_description (?fs ! k), finding_severity (?fs ! k)) =
        (itemText (trim line), inferSeverity lc (section_title sec) (itemText (trim line)) i)"
      using k len il by simp
    then have d: "finding_description (?fs ! k) = itemText (trim line)"
      and s: "finding_severity (?fs ! k) = inferSeverity lc (section_title sec) (itemText (trim line)) i"
      by simp_all
    have "findingLineIndexes sec ! k = i"
      using k len il by (simp add: findingLineIndexes_def)
    with inferSeverity_position [of lc "section_title sec" "itemText (trim line)" i] free d s
    show ?thesis by simp
  qed
  show ?thesis
    using len sev extractFindings_from_sections [of lc uuid n secs raw]
    by (simp add: findingLineIndexes_def)
qed

text \<open>
  Claim C7 takes the position of a finding among the items extracted from its section,
  as the comment of \<^verbatim>\<open>inferSeverity\<close> does (\<^verbatim>\<open>Use position in list as indicator\<close>): high for
  the first three items, medium for the next three. The example is a numbered list of
  four items with a blank line between two items, none with a severity keyword. The
  items are at the lines 0, 2, 4 and 6 of the section content, so the third item is
  medium and the fourth is low, where their positions 2 and 3 give high and medium.
\<close>

theorem severity_of_numbered_items:
  "map (\<lambda>f. (finding_description f, finding_severity f))
       (extractFindings lc exampleUuid 0 (parseReportSections lc severityExample) severityExample) =
     [(js ''Drops the left arm after every jab'', high),
      (js ''Circles into the power hand'', high),
      (js ''Reaches with the chin up'', medium),
      (js ''Stands tall at the end of exchanges'', low)]
   \<and> severityKeywordFree lc (js ''WEAKNESSES'') (js ''Drops the left arm after every jab'')
   \<and> severityKeywordFree lc (js ''WEAKNESSES'') (js ''Circles into the power hand'')
   \<and> severityKeywordFree lc (js ''WEAKNESSES'') (js ''Reaches with the chin up'')
   \<and> severityKeywordFree lc (js ''WEAKNESSES'') (js ''Stands tall at the end of exchanges'')"
  using severity_example_findings [of lc] severity_example_keywords [of lc] by simp

section \<open>List items\<close>

text \<open>
  Claim C8 says that a line that does not start with a bullet or a number never gives
  a finding. In the item test of the source the anchor binds to the bullet alternative
  only, so digits, a full stop and a white space anywhere in a line pass it: the line
  of the example starts with a letter and gives a finding, whose text is the line
  without the number in its middle.
\<close>

theorem finding_from_unprefixed_line:
  "map finding_description
       (extractFindings lc exampleUuid 0 (parseReportSections lc prefixExample) prefixExample) =
     [js ''He backs straight up in round Then drops his hands'']"
  by (rule prefix_example_findings)

section \<open>The decision tree example\<close>

text \<open>
  Claim C9, as the specification states it, expects the response \<^verbatim>\<open>slip outside\<close>. The
  second group of the expression runs to the end of the line and the source only
  trims it: the response keeps its asterisks and the timestamp.
\<close>

theorem decision_tree_response_counterexample:
  "map response
       (extractDecisionTree exampleLowering (parseReportSections exampleLowering decisionExample))
     \<noteq> [js ''slip outside'']"
proof -
  define ns where
    "ns = extractDecisionTree exampleLowering (parseReportSections exampleLowering decisionExample)"
  have "map (\<lambda>n. (trigger n, response n, map_option ts_seconds (node_timestamp n))) ns =
      [(js ''jabs lazily'', js ''**slip outside** [0:12]'', Some 12)]"
    using decision_example_nodes by (simp add: ns_def)
  then obtain n where "ns = [n]" and "response n = js ''**slip outside** [0:12]''"
    by (cases ns) auto
  then show ?thesis
    unfolding ns_def [symmetric] by (simp add: js_def)
qed

text \<open>
  Claim C9, amended. The example input, parsed into sections and passed to
  \<^verbatim>\<open>extractDecisionTree\<close>, gives exactly one node: its trigger is \<^verbatim>\<open>jabs lazily\<close>, its
  response is the rest of the line after THEN, trimmed, with its asterisks and its
  timestamp, and the seconds of its timestamp are 12.
\<close>

theorem decision_tree_example:
  "map (\<lambda>n. (trigger n, response n, map_option ts_seconds (node_timestamp n)))
       (extractDecisionTree lc (parseReportSections lc decisionExample)) =
     [(js ''jabs lazily'', js ''**slip outside** [0:12]'', Some 12)]"
  by (rule decision_example_nodes)

section \<open>The empty report\<close>

lemma parseReportSections_empty: "parseReportSections lc [] = []"
  by (simp add: parseReportSections_def)

lemma extractFindings_nil: "extractFindings lc uuid n [] raw = []"
  by (simp add: extractFindings_def deduplicateFindings_def)

lemma extractStrengths_nil: "extractStrengths lc uuid n [] raw = []"
  by (simp add: extractStrengths_def deduplicateFindings_def)

lemma extractOverallAssessment_empty:
  "extractOverallAssessment lc [] [] =
     \<lparr> level = js ''Unknown'', archetype = js ''Unknown'', summary = js ''No assessment available.'' \<rparr>"
  by (simp add: extractOverallAssessment_def)

text \<open>
  Claim C3. On the empty string \<^verbatim>\<open>parseSelfScoutReport\<close> returns a report (every function
  of the model is total, and none of the source has a \<^verbatim>\<open>throw\<close>) whose sections,
  findings and strengths are empty, whose assessment is the default one, and whose
  warnings are the warning that no strengths were identified, for every source of
  identifiers, time and analysis type.
\<close>

theorem parseSelfScoutReport_empty:
  "report_sections (parseSelfScoutReport lc uuid now [] t) = []
   \<and> report_findings (parseSelfScoutReport lc uuid now [] t) = []
   \<and> report_strengths (parseSelfScoutReport lc uuid now [] t) = []
   \<and> report_overallAssessment (parseSelfScoutReport lc uuid now [] t) =
       \<lparr> level = js ''Unknown'', archetype = js ''Unknown'', summary = js ''No assessment available.'' \<rparr>
   \<and> validationWarnings (report_metadata (parseSelfScoutReport lc uuid now [] t)) =
       [js ''No strengths were identified in this analysis.'']"
  by (simp add: parseSelfScoutReport_def Let_def parseReportSections_empty extractFindings_nil
      extractStrengths_nil extractOverallAssessment_empty validateReport_def)

section \<open>Sections and headings\<close>

lemma parseReportSections_pushLast:
  "parseReportSections lc markdown =
     (if markdown = [] then [] else pushLast lc (foldl (parseLine lc) ([], None) (split NL markdown)))"
  by (simp add: parseReportSections_def pushLast_def split: prod.splits option.splits)

lemma sectionHead_finalize: "sectionHead (finalizeSection lc cur) = sectionHead cur"
  by (simp add: sectionHead_def finalizeSection_def Let_def)

lemma sectionHead_simps:
  "sectionHead (c\<lparr> section_content := x \<rparr>) = sectionHead c"
  "sectionHead \<lparr> section_id = a, section_title = b, section_content = x, section_timestamps = y \<rparr> = (a, b)"
  by (simp_all add: sectionHead_def)

lemma parseLine_blank:
  "trim l = [] \<Longrightarrow>
   parseLine lc (secs, cur) l =
     (secs, map_option (\<lambda>c. c\<lparr> section_content := section_content c @ [NL] \<rparr>) cur)"
  by (simp add: parseLine_def)

lemma parseLine_header:
  "isHeaderLine l \<Longrightarrow>
   parseLine lc (secs, cur) l =
     ((case cur of Some c \<Rightarrow> secs @ [finalizeSection lc c] | None \<Rightarrow> secs),
      Some \<lparr> section_id = generateSectionId lc (titleOfLine l), section_title = titleOfLine l,
             section_content = [], section_timestamps = [] \<rparr>)"
  by (auto simp: parseLine_def isHeaderLine_def titleOfLine_def Let_def)

lemma parseLine_content:
  "trim l \<noteq> [] \<Longrightarrow> \<not> isHeaderLine l \<Longrightarrow>
   parseLine lc (secs, cur) l =
     (case cur of
        Some c \<Rightarrow> (secs, Some (c\<lparr> section_content := section_content c @ l @ [NL] \<rparr>))
      | None \<Rightarrow> (secs, Some \<lparr> section_id = js ''intro'', section_title = js ''Introduction'',
                               section_content = l @ [NL], section_timestamps = [] \<rparr>))"
  by (auto simp: parseLine_def isHeaderLine_def Let_def)

lemma hasPreamble_Cons:
  "hasPreamble (l # ls) = (\<not> isHeaderLine l \<and> (trim l \<noteq> [] \<or> hasPreamble ls))"
  by (simp add: hasPreamble_def)

lemma hasPreamble_Nil: "\<not> hasPreamble []"
  by (simp add: hasPreamble_def)

lemma blank_not_header: "trim l = [] \<Longrightarrow> \<not> isHeaderLine l"
  by (simp add: isHeaderLine_def)

lemma parse_heads:
  "map sectionHead (pushLast lc (foldl (parseLine lc) (secs, cur) ls)) =
     map sectionHead secs
     @ (case cur of
          Some c \<Rightarrow> [sectionHead c]
        | None \<Rightarrow> if hasPreamble ls then [(js ''intro'', js ''Introduction'')] else [])
     @ map (headOfLine lc) (filter isHeaderLine ls)"
proof (induction ls arbitrary: secs cur)
  case Nil
  then show ?case
    by (simp add: pushLast_def hasPreamble_Nil sectionHead_finalize split: option.splits)
next
  case (Cons l ls)
  consider (blank) "trim l = []" | (header) "isHeaderLine l"
    | (content) "trim l \<noteq> []" "\<not> isHeaderLine l"
    by blast
  then show ?case
  proof cases
    case blank
    then show ?thesis
      using blank_not_header [OF blank]
      by (cases cur) (simp_all add: parseLine_blank Cons.IH hasPreamble_Cons sectionHead_simps)
  next
    case header
    then show ?thesis
      by (cases cur)
        (simp_all add: parseLine_header Cons.IH hasPreamble_Cons sectionHead_finalize
          sectionHead_simps headOfLine_def)
  next
    case content
    then show ?thesis
      by (cases cur) (simp_all add: parseLine_content Cons.IH hasPreamble_Cons sectionHead_simps)
  qed
qed

lemma hash_header_is_header: "isHashHeaderLine l \<Longrightarrow> isHeaderLine l"
  by (auto simp: isHashHeaderLine_def isHeaderLine_def headerTitle_def Let_def split: option.splits)

lemma split_empty: "split NL [] = [[]]"
  by simp

lemma trim_empty: "trim [] = []"
  by (simp add: trim_def)

lemma star_atom_total:
  assumes "\<And>st. k st \<noteq> None"
  shows "matcher (Rep 0 mx g (Atom p)) k (i, s, caps) \<noteq> None"
proof (cases s)
  case Nil
  with assms [of "(i, [], caps)"] show ?thesis
    by (simp add: rep_atom_Nil)
next
  case (Cons c s')
  from assms [of "(i, c # s', caps)"] obtain j rest caps'
    where r0: "k (i, c # s', caps) = Some (j, rest, caps')"
    by (cases "k (i, c # s', caps)") auto
  show ?thesis
    unfolding Cons by (simp add: rep_atom_Cons r0 split: option.splits)
qed

lemma not_space_dot: "\<not> isWhiteSpace c \<Longrightarrow> dot c"
  by (auto simp: dot_def isLineTerminator_def isWhiteSpace_def)

lemma hash_heading_form:
  assumes k: "k = 1 \<or> k = 2 \<or> k = 3"
    and t: "t \<noteq> []" "\<not> isWhiteSpace (hd t)" "\<not> isWhiteSpace (last t)"
  shows "isHashHeaderLine (replicate k 35 @ 32 # t)"
proof -
  let ?l = "replicate k 35 @ 32 # t"
  from t obtain a t' where t': "t = a # t'" and a: "\<not> isWhiteSpace a" "dot a"
    by (cases t) (auto simp: not_space_dot)
  have sp: "isWhiteSpace 32" "\<not> isWhiteSpace 35"
    by (simp_all add: isWhiteSpace_def)
  have tr: "trim ?l = ?l"
    using k t sp by (intro trim_id) auto
  have tail: "matcher (Rep 0 None True (Atom dot))
            (\<lambda>st'. Some (fst st', fst (snd st'), (snd (snd st'))(2 \<mapsto> take (fst st' - j) (a # t'))))
            (i, t', caps) \<noteq> None" for i j caps
    by (rule star_atom_total) simp
  have "regexAt hashHeaderRegex 0 ?l \<noteq> None"
    using k
  proof (elim disjE)
    assume "k = 1"
    then show ?thesis
      unfolding t' using a sp tail
      by (simp add: hashHeaderRegex_def engine_eval del: engine_raw split: option.splits)
  next
    assume "k = 2"
    then show ?thesis
      unfolding t' using a sp tail
      by (simp add: hashHeaderRegex_def engine_eval numeral_2_eq_2 del: engine_raw split: option.splits)
  next
    assume "k = 3"
    then show ?thesis
      unfolding t' using a sp tail
      by (simp add: hashHeaderRegex_def engine_eval numeral_3_eq_3 del: engine_raw split: option.splits)
  qed
  then have "regexMatch hashHeaderRegex ?l \<noteq> None"
    using k by (cases ?l) (auto simp: regexMatch_def searchFrom_Cons split: option.splits)
  then show ?thesis
    by (simp add: isHashHeaderLine_def tr)
qed

subsection \<open>The content of the sections\<close>

lemma finalize_open:
  "finalizeSection lc \<lparr> section_id = a, section_title = b,
       section_content = concat (map lineText ls), section_timestamps = ts \<rparr> =
     closedSection lc a b ls"
  by (simp add: finalizeSection_def closedSection_def Let_def)

lemma finalize_open_Cons:
  "trim l \<noteq> [] \<Longrightarrow>
   finalizeSection lc \<lparr> section_id = a, section_title = b,
       section_content = l @ NL # concat (map lineText ls), section_timestamps = ts \<rparr> =
     closedSection lc a b (l # ls)"
  using finalize_open [of lc a b "l # ls" ts] by (simp add: lineText_def)

lemma parse_sections:
  assumes "\<forall>l \<in> set ls. isHeaderLine l \<longrightarrow> isHashHeaderLine l"
  shows "pushLast lc (foldl (parseLine lc) (secs, cur) ls) =
     secs
     @ (case cur of
          Some c \<Rightarrow>
            [finalizeSection lc
               (c\<lparr> section_content := section_content c
                     @ concat (map lineText (takeWhile (\<lambda>l. \<not> isHashHeaderLine l) ls)) \<rparr>)]
        | None \<Rightarrow>
            if hasPreamble ls
            then [closedSection lc (js ''intro'') (js ''Introduction'') (preambleLines ls)]
            else [])
     @ map (headingSection lc) (headingChunks ls)"
  using assms
proof (induction ls arbitrary: secs cur)
  case Nil
  then show ?case
    by (simp add: pushLast_def hasPreamble_Nil split: option.splits)
next
  case (Cons l ls)
  from Cons.prems have rest: "\<forall>l \<in> set ls. isHeaderLine l \<longrightarrow> isHashHeaderLine l"
    by simp
  from Cons.prems hash_header_is_header [of l] have hl: "isHashHeaderLine l = isHeaderLine l"
    by auto
  note IH = Cons.IH [OF rest]
  consider (blank) "trim l = []" | (header) "isHeaderLine l"
    | (content) "trim l \<noteq> []" "\<not> isHeaderLine l"
    by blast
  then show ?case
  proof cases
    case blank
    then have nh: "\<not> isHeaderLine l"
      by (rule blank_not_header)
    show ?thesis
    proof (cases cur)
      case None
      then show ?thesis
        using blank nh by (simp add: parseLine_blank IH hasPreamble_Cons hl preambleLines_def)
    next
      case (Some c)
      then show ?thesis
        using blank nh by (simp add: parseLine_blank IH hl lineText_def)
    qed
  next
    case header
    show ?thesis
    proof (cases cur)
      case None
      then show ?thesis
        using header
        by (simp add: parseLine_header IH hasPreamble_Cons hl headingSection_def
            finalize_open [of lc _ _ "takeWhile (\<lambda>l. \<not> isHashHeaderLine l) ls", simplified])
    next
      case (Some c)
      then show ?thesis
        using header
        by (simp add: parseLine_header IH hl headingSection_def
            finalize_open [of lc _ _ "takeWhile (\<lambda>l. \<not> isHashHeaderLine l) ls", simplified])
    qed
  next
    case content
    show ?thesis
    proof (cases cur)
      case None
      then show ?thesis
        using content
        by (simp add: parseLine_content IH hasPreamble_Cons hl preambleLines_def
            finalize_open_Cons)
    next
      case (Some c)
      then show ?thesis
        using content by (simp add: parseLine_content IH hl lineText_def)
    qed
  qed
qed


text \<open>
  Claim C2. When every line that the parser takes for a heading is a hash heading (one
  to three hashes, white space, text), \<^verbatim>\<open>parseReportSections\<close> returns one section for
  each such line, in their order, with the title and identifier of the line, after one
  section with identifier \<^verbatim>\<open>intro\<close> and title \<^verbatim>\<open>Introduction\<close> exactly when a line that is
  not blank comes before the first heading. The number of sections is the number of
  headings, plus one in that case: the section open at the end is among them. Every
  section returned is closed, the last one too: its content is the text of the lines
  between its heading and the next one (for the first section, of the preamble),
  trimmed, and its timestamps are the ones read from that content.
  By \<open>hash_heading_form\<close> above, a line made of one to three hashes, a space and a
  text that starts and ends with a code unit other than white space is such a heading.
\<close>

theorem sections_of_headings:
  assumes "\<forall>l \<in> set (split NL markdown). isHeaderLine l \<longrightarrow> isHashHeaderLine l"
  shows "map sectionHead (parseReportSections lc markdown) =
           (if hasPreamble (split NL markdown) then [(js ''intro'', js ''Introduction'')] else [])
           @ map (headOfLine lc) (filter isHashHeaderLine (split NL markdown))
         \<and> length (parseReportSections lc markdown) =
           length (filter isHashHeaderLine (split NL markdown))
           + (if hasPreamble (split NL markdown) then 1 else 0)
         \<and> parseReportSections lc markdown =
           (if hasPreamble (split NL markdown)
            then [closedSection lc (js ''intro'') (js ''Introduction'')
                    (preambleLines (split NL markdown))]
            else [])
           @ map (headingSection lc) (headingChunks (split NL markdown))"
proof -
  have f: "filter isHeaderLine (split NL markdown) = filter isHashHeaderLine (split NL markdown)"
    using assms hash_header_is_header by (intro filter_cong) auto
  have heads: "map sectionHead (parseReportSections lc markdown) =
           (if hasPreamble (split NL markdown) then [(js ''intro'', js ''Introduction'')] else [])
           @ map (headOfLine lc) (filter isHashHeaderLine (split NL markdown))"
  proof (cases "markdown = []")
    case True
    then show ?thesis
      by (simp add: parseReportSections_pushLast hasPreamble_def isHeaderLine_def isHashHeaderLine_def
          trim_empty)
  next
    case False
    then show ?thesis
      using parse_heads [of lc "[]" None "split NL markdown"]
      by (simp add: parseReportSections_pushLast f)
  qed
  have "length (parseReportSections lc markdown) = length (map sectionHead (parseReportSections lc markdown))"
    by simp
  also have "\<dots> = length (filter isHashHeaderLine (split NL markdown))
           + (if hasPreamble (split NL markdown) then 1 else 0)"
    by (simp only: heads) simp
  finally have len: "length (parseReportSections lc markdown) =
      length (filter isHashHeaderLine (split NL markdown))
      + (if hasPreamble (split NL markdown) then 1 else 0)" .
  have closed: "parseReportSections lc markdown =
           (if hasPreamble (split NL markdown)
            then [closedSection lc (js ''intro'') (js ''Introduction'')
                    (preambleLines (split NL markdown))]
            else [])
           @ map (headingSection lc) (headingChunks (split NL markdown))"
  proof (cases "markdown = []")
    case True
    then show ?thesis
      by (simp add: parseReportSections_pushLast hasPreamble_def isHeaderLine_def isHashHeaderLine_def
          trim_empty)
  next
    case False
    then show ?thesis
      using parse_sections [OF assms, of lc "[]" None]
      by (simp add: parseReportSections_pushLast)
  qed
  from heads len closed show ?thesis
    by (simp only: simp_thms)
qed

lemma sections_example_lines:
  "split NL sectionsExample =
     [js ''Scouting notes'', js ''## Strengths'', js ''- jab [0:05]'', [], js ''### Habits'',
      js ''- drops hands'', []]"
  by (simp add: sectionsExample_def js_def NL_def)

lemma sections_example_headings:
  "map (\<lambda>l. (isHeaderLine l, isHashHeaderLine l, trim l = [], titleOfLine l))
     [js ''Scouting notes'', js ''## Strengths'', js ''- jab [0:05]'', [], js ''### Habits'',
      js ''- drops hands'', []] =
     [(False, False, False, []),
      (True, True, False, js ''Strengths''),
      (False, False, False, []),
      (False, False, True, []),
      (True, True, False, js ''Habits''),
      (False, False, False, []),
      (False, False, True, [])]"
  by (simp add: isHeaderLine_def isHashHeaderLine_def headerTitle_def
      hashHeaderRegex_def boldHeaderRegex_def boldHeaderClass_def boldMarker_def
      titleOfLine_def Let_def engine_eval string_eval del: engine_raw string_raw)

lemma sections_example_closed:
  "sectionView (closedSection lc (js ''intro'') (js ''Introduction'') [js ''Scouting notes''])
     = (js ''intro'', js ''Introduction'', js ''Scouting notes'', [])"
  "sectionView (closedSection lc (generateSectionId lc (js ''Strengths'')) (js ''Strengths'')
       [js ''- jab [0:05]'', []])
     = (js ''strengths'', js ''Strengths'', js ''- jab [0:05]'', [5])"
  "sectionView (closedSection lc (generateSectionId lc (js ''Habits'')) (js ''Habits'')
       [js ''- drops hands'', []])
     = (js ''habits'', js ''Habits'', js ''- drops hands'', [])"
  by (simp_all add: sectionView_def closedSection_def lineText_def generateSectionId_def
      extractTimestamps_def timestampRegex_def timestampOfMatch_seconds Let_def
      engine_eval string_eval del: engine_raw string_raw)

theorem sections_of_headings_witness:
  "map sectionHead (parseReportSections exampleLowering sectionsExample) =
     [(js ''intro'', js ''Introduction''), (js ''strengths'', js ''Strengths''),
      (js ''habits'', js ''Habits'')]
   \<and> length (parseReportSections exampleLowering sectionsExample) = 3
   \<and> map sectionView (parseReportSections exampleLowering sectionsExample) =
     [(js ''intro'', js ''Introduction'', js ''Scouting notes'', []),
      (js ''strengths'', js ''Strengths'', js ''- jab [0:05]'', [5]),
      (js ''habits'', js ''Habits'', js ''- drops hands'', [])]"
proof -
  define l1 l2 l3 l5 l6
    where "l1 = js ''Scouting notes''" and "l2 = js ''## Strengths''" and "l3 = js ''- jab [0:05]''"
      and "l5 = js ''### Habits''" and "l6 = js ''- drops hands''"
  note ldefs = l1_def l2_def l3_def l5_def l6_def
  have ls: "split NL sectionsExample = [l1, l2, l3, [], l5, l6, []]"
    unfolding ldefs by (rule sections_example_lines)
  have "map (\<lambda>l. (isHeaderLine l, isHashHeaderLine l, trim l = [], titleOfLine l))
      [l1, l2, l3, [], l5, l6, []] =
     [(False, False, False, []),
      (True, True, False, js ''Strengths''),
      (False, False, False, []),
      (False, False, True, []),
      (True, True, False, js ''Habits''),
      (False, False, False, []),
      (False, False, True, [])]"
    unfolding ldefs by (rule sections_example_headings)
  then have l1: "\<not> isHeaderLine l1" "\<not> isHashHeaderLine l1" "trim l1 \<noteq> []"
    and l2: "isHeaderLine l2" "isHashHeaderLine l2" "titleOfLine l2 = js ''Strengths''"
    and l3: "\<not> isHeaderLine l3" "\<not> isHashHeaderLine l3" "trim l3 \<noteq> []"
    and l4: "\<not> isHeaderLine []" "\<not> isHashHeaderLine []" "trim [] = []"
    and l5: "isHeaderLine l5" "isHashHeaderLine l5" "titleOfLine l5 = js ''Habits''"
    and l6: "\<not> isHeaderLine l6" "\<not> isHashHeaderLine l6" "trim l6 \<noteq> []"
    by simp_all
  note facts = l1 l2 l3 l4 l5 l6
  have hyp: "\<forall>l \<in> set (split NL sectionsExample). isHeaderLine l \<longrightarrow> isHashHeaderLine l"
    unfolding ls using facts by simp
  have pre: "hasPreamble [l1, l2, l3, [], l5, l6, []]"
    "preambleLines [l1, l2, l3, [], l5, l6, []] = [l1]"
    using facts by (simp_all add: hasPreamble_Cons preambleLines_def)
  have chunks: "headingChunks [l1, l2, l3, [], l5, l6, []] = [(l2, [l3, []]), (l5, [l6, []])]"
    using facts by simp
  have heads: "headOfLine exampleLowering l2 = (js ''strengths'', js ''Strengths'')"
    "headOfLine exampleLowering l5 = (js ''habits'', js ''Habits'')"
    using sections_example_closed [of exampleLowering] l2 l5
    by (simp_all add: headOfLine_def sectionView_def closedSection_def)
  note main = sections_of_headings [OF hyp, of exampleLowering]
  have a: "map sectionHead (parseReportSections exampleLowering sectionsExample) =
      [(js ''intro'', js ''Introduction''), headOfLine exampleLowering l2, headOfLine exampleLowering l5]"
    using main [THEN conjunct1] pre facts unfolding ls by simp
  have b: "length (parseReportSections exampleLowering sectionsExample) = 3"
    using main [THEN conjunct2, THEN conjunct1] pre facts unfolding ls by simp
  have c: "parseReportSections exampleLowering sectionsExample =
      [closedSection exampleLowering (js ''intro'') (js ''Introduction'') [l1],
       headingSection exampleLowering (l2, [l3, []]),
       headingSection exampleLowering (l5, [l6, []])]"
    using main [THEN conjunct2, THEN conjunct2] pre chunks unfolding ls by simp
  have "map sectionView (parseReportSections exampleLowering sectionsExample) =
     [(js ''intro'', js ''Introduction'', js ''Scouting notes'', []),
      (js ''strengths'', js ''Strengths'', js ''- jab [0:05]'', [5]),
      (js ''habits'', js ''Habits'', js ''- drops hands'', [])]"
    unfolding c using sections_example_closed [of exampleLowering] l2 l5
    by (simp add: headingSection_def ldefs [symmetric])
  with a b show ?thesis
    by (simp add: heads)
qed


section \<open>The length of the summary\<close>

lemma replaceAllFrom_no_match:
  assumes nil: "\<And>i. regexAt re i [] = None"
    and cons: "\<And>i c s. P c \<Longrightarrow> regexAt re i (c # s) = None"
  shows "list_all P s \<Longrightarrow> replaceAllFrom re repl i s = s"
proof (induction s arbitrary: i)
  case Nil
  then show ?case by (simp add: replaceAllFrom_Nil nil)
next
  case (Cons c s)
  then show ?case by (simp add: replaceAllFrom_Cons cons)
qed

lemma archetypeLine_no_match:
  "regexAt archetypeLineRegex i [] = None"
  "plainChar c \<Longrightarrow> regexAt archetypeLineRegex i (c # s) = None"
  by (auto simp: plainChar_def archetypeLineRegex_def archetypeKey_def engine_eval js_def
      simp del: engine_raw)

lemma levelLine_no_match:
  "regexAt levelLineRegex i [] = None"
  "plainChar c \<Longrightarrow> regexAt levelLineRegex i (c # s) = None"
  by (auto simp: plainChar_def levelLineRegex_def levelKey_def engine_eval js_def
      simp del: engine_raw)

lemma boldMarker_no_match:
  "regexAt boldMarker i [] = None"
  "plainChar c \<Longrightarrow> regexAt boldMarker i (c # s) = None"
  by (auto simp: plainChar_def boldMarker_def engine_eval js_def simp del: engine_raw)

lemma lastIndexLoop_absent:
  "c \<notin> set s \<Longrightarrow> lastIndexLoop c pos i s found = found"
  by (induction s arbitrary: i) auto

lemma lastIndexLoop_at:
  "i + length xs = pos \<Longrightarrow> lastIndexLoop c pos i (xs @ c # ys) found = int pos"
proof (induction xs arbitrary: i found)
  case Nil
  then show ?case by (cases ys) auto
next
  case (Cons x xs)
  then show ?case by auto
qed


lemma long_content_clean:
  "trim (replaceAll boldMarker []
     (replaceAll levelLineRegex []
        (replaceAll archetypeLineRegex [] (replicate 1500 120 @ 46 # replicate 99 121))))
   = replicate 1500 120 @ 46 # replicate 99 121"
proof -
  let ?s = "replicate 1500 120 @ 46 # replicate 99 121"
  have p: "list_all plainChar ?s"
    by (simp add: list_all_iff plainChar_def)
  have "trim ?s = ?s"
    by (rule trim_id) (simp_all add: isWhiteSpace_def)
  then show ?thesis
    unfolding replaceAll_def
    by (simp only: replaceAllFrom_no_match [of _ plainChar, OF archetypeLine_no_match p]
        replaceAllFrom_no_match [of _ plainChar, OF levelLine_no_match p]
        replaceAllFrom_no_match [of _ plainChar, OF boldMarker_no_match p])
qed

lemma long_content_truncated:
  "length (truncateSummary (replicate 1500 120 @ 46 # replicate 99 121)) = 1501"
proof -
  let ?s = "replicate 1500 120 @ 46 # replicate 99 121"
  have a: "lastIndexOf 46 1500 ?s = 1500"
    unfolding lastIndexOf_def using lastIndexLoop_at [of 0 "replicate 1500 120" 1500 46 "replicate 99 121" "-1"]
    by simp
  have b: "lastIndexOf 63 1500 ?s = -1" "lastIndexOf 33 1500 ?s = -1"
    unfolding lastIndexOf_def by (simp_all add: lastIndexLoop_absent)
  show ?thesis
    by (simp add: truncateSummary_def a b Let_def substring_def)
qed

lemma searchFrom_no_match:
  assumes nil: "\<And>i. regexAt re i [] = None"
    and cons: "\<And>i c s. P c \<Longrightarrow> regexAt re i (c # s) = None"
  shows "list_all P s \<Longrightarrow> searchFrom re i s = None"
proof (induction s arbitrary: i)
  case Nil
  then show ?case by (simp add: searchFrom_Nil nil)
next
  case (Cons c s)
  then show ?case by (simp add: searchFrom_Cons cons)
qed

lemma hashHeader_no_match:
  "regexAt hashHeaderRegex i [] = None"
  "plainChar c \<Longrightarrow> regexAt hashHeaderRegex i (c # s) = None"
  by (auto simp: plainChar_def hashHeaderRegex_def engine_eval simp del: engine_raw)

lemma boldHeader_no_match:
  "regexAt boldHeaderRegex i [] = None"
  "plainChar c \<Longrightarrow> regexAt boldHeaderRegex i (c # s) = None"
  by (auto simp: plainChar_def boldHeaderRegex_def engine_eval js_def simp del: engine_raw)

lemma trim_snoc:
  "s \<noteq> [] \<Longrightarrow> \<not> isWhiteSpace (hd s) \<Longrightarrow> \<not> isWhiteSpace (last s) \<Longrightarrow> isWhiteSpace c \<Longrightarrow>
   trim (s @ [c]) = s"
proof -
  assume s: "s \<noteq> []" and h: "\<not> isWhiteSpace (hd s)" and l: "\<not> isWhiteSpace (last s)"
    and c: "isWhiteSpace c"
  from s h have "dropWhile isWhiteSpace (s @ [c]) = s @ [c]"
    by (cases s) auto
  moreover from s l have "dropWhile isWhiteSpace (rev s) = rev s"
    by (cases "rev s") (auto simp: last_rev [symmetric] simp del: last_rev)
  ultimately show ?thesis
    using c by (simp add: trim_def)
qed

lemma long_report_sections:
  "map (\<lambda>s. (section_title s, section_content s)) (parseReportSections lc longReport) =
     [(js ''OVERALL ASSESSMENT'', replicate 1500 120 @ 46 # replicate 99 121)]"
proof -
  let ?c = "replicate 1500 120 @ 46 # replicate 99 121"
  let ?head = "\<lparr> section_id = js ''overall-assessment'', section_title = js ''OVERALL ASSESSMENT'',
                   section_content = [], section_timestamps = [] \<rparr>"
  have p: "list_all plainChar ?c"
    by (simp add: list_all_iff plainChar_def)
  have nl: "NL \<notin> set (js ''## OVERALL ASSESSMENT'')" "NL \<notin> set ?c"
    by (simp_all add: NL_def js_def)
  have lines: "split NL longReport = [js ''## OVERALL ASSESSMENT'', ?c]"
    using split_at [OF nl(1), of ?c] split_absent [OF nl(2)] by (simp add: longReport_def)
  have t: "trim ?c = ?c"
    by (rule trim_id) (simp_all add: isWhiteSpace_def)
  have "trim (?c @ [NL]) = ?c"
    by (rule trim_snoc) (simp_all add: isWhiteSpace_def NL_def)
  then have t': "trim (replicate 1500 120 @ 46 # replicate 99 121 @ [NL]) = ?c"
    by simp
  have "headerTitle ?c = None"
    by (simp add: headerTitle_def regexMatch_def Let_def
        searchFrom_no_match [of _ plainChar, OF hashHeader_no_match p]
        searchFrom_no_match [of _ plainChar, OF boldHeader_no_match p])
  then have h: "\<not> isHeaderLine ?c" and ne: "trim ?c \<noteq> []"
    by (simp_all add: isHeaderLine_def t)
  have first: "parseLine lc ([], None) (js ''## OVERALL ASSESSMENT'') = ([], Some ?head)"
    by (simp add: parseLine_def headerTitle_def hashHeaderRegex_def boldHeaderRegex_def
        boldHeaderClass_def boldMarker_def generateSectionId_def Let_def
        engine_eval string_eval del: engine_raw string_raw)
  have second: "parseLine lc ([], Some ?head) ?c =
      ([], Some (?head\<lparr> section_content := section_content ?head @ ?c @ [NL] \<rparr>))"
    using parseLine_content [OF ne h, of lc "[]" "Some ?head"] by simp
  have "longReport \<noteq> []"
    by (simp add: longReport_def js_def)
  then show ?thesis
    by (simp add: parseReportSections_def lines first second finalizeSection_def Let_def t')
qed

lemma summary_of_long_content:
  assumes "isAssessmentSection lc sec"
    and c: "section_content sec = replicate 1500 120 @ 46 # replicate 99 121"
  shows "length (summary (extractOverallAssessment lc [sec] raw)) = 1501"
proof -
  have sec: "find (isAssessmentSection lc) [sec] = Some sec"
    using assms(1) by simp
  have ne: "truncateSummary (replicate 1500 120 @ 46 # replicate 99 121) \<noteq> []"
    using long_content_truncated by auto
  show ?thesis
    unfolding extractOverallAssessment_def sec
    by (simp add: Let_def c long_content_clean long_content_truncated ne)
qed

text \<open>
  Claim C6 bounds the summary by 1500 code units. \<^verbatim>\<open>lastIndexOf(c, 1500)\<close> also finds a
  sentence end at index 1500, and the source cuts after it: for a section content of
  1500 letters, a full stop and 99 more letters the summary has 1501 code units, both
  when the section is passed to \<^verbatim>\<open>extractOverallAssessment\<close> and when the report with
  that section is parsed by \<^verbatim>\<open>parseSelfScoutReport\<close>.
\<close>

theorem summary_longer_than_1500:
  "length (summary (extractOverallAssessment lc [longAssessment] [])) = 1501
   \<and> length (summary (report_overallAssessment (parseSelfScoutReport lc uuid now longReport t))) = 1501"
proof -
  have a: "isAssessmentSection lc longAssessment"
    by (simp add: isAssessmentSection_def longAssessment_def string_eval del: string_raw)
  have c: "section_content longAssessment = replicate 1500 120 @ 46 # replicate 99 121"
    by (simp add: longAssessment_def)
  obtain sec where secs: "parseReportSections lc longReport = [sec]"
    and "section_title sec = js ''OVERALL ASSESSMENT''"
    and c': "section_content sec = replicate 1500 120 @ 46 # replicate 99 121"
    using long_report_sections [of lc] by (cases "parseReportSections lc longReport") auto
  then have a': "isAssessmentSection lc sec"
    by (simp add: isAssessmentSection_def string_eval del: string_raw)
  show ?thesis
    using summary_of_long_content [OF a c] summary_of_long_content [OF a' c']
    by (simp add: parseSelfScoutReport_def Let_def secs)
qed


section \<open>What a match consumes\<close>

lemma advances_refl: "advances P st st"
  by (auto simp: advances_def intro: exI [of _ "[]"])

lemma advances_trans: "advances P a b \<Longrightarrow> advances P b c \<Longrightarrow> advances P a c"
proof -
  assume "advances P a b" and "advances P b c"
  then obtain u v where u: "list_all P u" "fst (snd a) = u @ fst (snd b)" "fst b = fst a + length u"
    and v: "list_all P v" "fst (snd b) = v @ fst (snd c)" "fst c = fst b + length v"
    by (auto simp: advances_def)
  then have "list_all P (u @ v) \<and> fst (snd a) = (u @ v) @ fst (snd c) \<and> fst c = fst a + length (u @ v)"
    by simp
  then show ?thesis
    unfolding advances_def by blast
qed

lemma advances_caps: "advances P st (j, s, caps) \<Longrightarrow> advances P st (j, s, caps')"
  by (simp add: advances_def)

lemma repeatMatcher_sound:
  assumes body: "\<And>k st res. body k st = Some res \<Longrightarrow> \<exists>st'. advances P st st' \<and> k st' = Some res"
  shows "repeatMatcher fuel body mn mx g k st = Some res \<Longrightarrow> \<exists>st'. advances P st st' \<and> k st' = Some res"
proof (induction fuel arbitrary: mn mx st)
  case 0
  then have "k st = Some res"
    by (simp split: if_splits)
  with advances_refl [of P st] show ?case by blast
next
  case (Suc fuel)
  let ?K = "\<lambda>st'. if mn = 0 \<and> fst st' = fst st then None
                 else repeatMatcher fuel body (mn - 1) (map_option (\<lambda>n. n - 1) mx) g k st'"
  from Suc.prems consider (stop) "k st = Some res" | (again) "body ?K st = Some res"
    by (auto simp: Let_def split: if_splits option.splits)
  then show ?case
  proof cases
    case stop
    with advances_refl [of P st] show ?thesis by blast
  next
    case again
    from body [OF again] obtain st1 where a: "advances P st st1" and k1: "?K st1 = Some res"
      by blast
    from k1 have "repeatMatcher fuel body (mn - 1) (map_option (\<lambda>n. n - 1) mx) g k st1 = Some res"
      by (auto split: if_splits)
    from Suc.IH [OF this] obtain st2 where "advances P st1 st2" and "k st2 = Some res"
      by blast
    with a show ?thesis
      by (blast intro: advances_trans)
  qed
qed

lemma matcher_sound:
  "atomsSat P r \<Longrightarrow> matcher r k st = Some res \<Longrightarrow> \<exists>st'. advances P st st' \<and> k st' = Some res"
proof (induction r arbitrary: k st res)
  case (Atom p)
  obtain i s caps where st: "st = (i, s, caps)"
    by (cases st)
  from Atom.prems obtain c s' where s: "s = c # s'" and pc: "p c" and k: "k (Suc i, s', caps) = Some res"
    unfolding st by (cases s) (auto split: if_splits)
  from Atom.prems(1) pc have "P c" by simp
  then have "advances P st (Suc i, s', caps)"
    unfolding st s advances_def by (intro exI [of _ "[c]"]) simp
  with k show ?case by blast
next
  case Eps
  then have "k st = Some res" by simp
  with advances_refl [of P st] show ?case by blast
next
  case (Cat a b)
  from Cat.prems have "matcher a (matcher b k) st = Some res" and pa: "atomsSat P a" and pb: "atomsSat P b"
    by simp_all
  from Cat.IH(1) [OF pa this(1)] obtain st1 where a: "advances P st st1" and "matcher b k st1 = Some res"
    by blast
  from Cat.IH(2) [OF pb this(2)] obtain st2 where "advances P st1 st2" and "k st2 = Some res"
    by blast
  with a show ?case by (blast intro: advances_trans)
next
  case (Alt a b)
  from Alt.prems have pa: "atomsSat P a" and pb: "atomsSat P b"
    by simp_all
  from Alt.prems consider (left) "matcher a k st = Some res" | (right) "matcher b k st = Some res"
    by (auto split: option.splits)
  then show ?case
  proof cases
    case left
    from Alt.IH(1) [OF pa left] show ?thesis .
  next
    case right
    from Alt.IH(2) [OF pb right] show ?thesis .
  qed
next
  case (Rep mn mx g r)
  from Rep.prems have p: "atomsSat P r"
    and m: "repeatMatcher (mn + length (fst (snd st))) (matcher r) mn mx g k st = Some res"
    by (simp_all add: matcher.simps(5))
  show ?case
    by (rule repeatMatcher_sound [OF _ m]) (rule Rep.IH [OF p])
next
  case (Group n r)
  from Group.prems have p: "atomsSat P r"
    and m: "matcher r (\<lambda>(j, s', caps'). k (j, s', caps'(n \<mapsto> take (j - fst st) (fst (snd st))))) st = Some res"
    by simp_all
  from Group.IH [OF p m] obtain st1 where a: "advances P st st1"
    and k1: "(case st1 of (j, s', caps') \<Rightarrow> k (j, s', caps'(n \<mapsto> take (j - fst st) (fst (snd st))))) = Some res"
    by blast
  obtain j s' caps' where st1: "st1 = (j, s', caps')"
    by (cases st1)
  from a have "advances P st (j, s', caps'(n \<mapsto> take (j - fst st) (fst (snd st))))"
    unfolding st1 by (rule advances_caps)
  with k1 show ?case
    unfolding st1 by auto
next
  case Bol
  then have "k st = Some res" by (simp split: if_splits)
  with advances_refl [of P st] show ?case by blast
next
  case Eol
  then have "k st = Some res" by (simp split: if_splits)
  with advances_refl [of P st] show ?case by blast
next
  case (Look r)
  from Look.prems obtain j s' caps' where "k (fst st, fst (snd st), caps') = Some res"
    by (auto split: option.splits)
  moreover have "advances P st (fst st, fst (snd st), caps')"
    by (auto simp: advances_def intro: exI [of _ "[]"])
  ultimately show ?case by blast
qed


section \<open>Timestamps in brackets\<close>

lemma timestamp_match_shape:
  assumes "regexAt timestampRegex i s = Some (j, rest, caps)"
  shows "\<exists>c w. s = c # w @ rest \<and> j = Suc i + length w \<and> list_all notOpening w"
proof -
  let ?tail = "seqs [Group 1 (seqs [Rep 1 (Some 2) True (Atom isDigit), chr 58, Rep 2 (Some 2) True (Atom isDigit)]),
           opt (seqs [chr 45, Rep 1 (Some 2) True (Atom isDigit), chr 58,
                      Rep 2 (Some 2) True (Atom isDigit)]),
           Atom (oneOf (js ''])''))]"
  have re: "timestampRegex = Cat (Atom (oneOf (js ''[(''))) ?tail"
    by (simp add: timestampRegex_def)
  have sat: "atomsSat notOpening ?tail"
    by (auto simp: notOpening_def isDigit_def chr_def opt_def oneOf_def js_def)
  from assms obtain c s1 where s: "s = c # s1"
    and m: "matcher ?tail Some (Suc i, s1, Map.empty) = Some (j, rest, caps)"
    unfolding regexAt_def re by (cases s) (auto split: if_splits)
  from matcher_sound [OF sat m] obtain st' where a: "advances notOpening (Suc i, s1, Map.empty) st'"
    and "Some st' = Some (j, rest, caps)"
    by blast
  then have "advances notOpening (Suc i, s1, Map.empty) (j, rest, caps)"
    by simp
  then obtain w where "list_all notOpening w" "s1 = w @ rest" "j = Suc i + length w"
    by (auto simp: advances_def)
  with s show ?thesis by simp
qed

lemma timestamp_match_token:
  assumes m: "m \<noteq> []" "length m \<le> 2" "list_all isDigit m"
    and ss: "length ss = 2" "list_all isDigit ss"
  shows "regexAt timestampRegex i (91 # m @ 58 # ss @ 93 # post) =
           Some (i + (length m + 5), post, [1 \<mapsto> m @ 58 # ss])"
proof -
  from ss obtain s1 s2 where ss': "ss = [s1, s2]" and ds: "isDigit s1" "isDigit s2"
    by (cases ss; cases "tl ss") auto
  from m consider (one) d1 where "m = [d1]" "isDigit d1"
    | (two) d1 d2 where "m = [d1, d2]" "isDigit d1" "isDigit d2"
    by (cases m; cases "tl m") auto
  then show ?thesis
  proof cases
    case one
    then show ?thesis
      unfolding ss' using ds
      by (simp add: timestampRegex_def engine_eval oneOf_def js_def isDigit_def del: engine_raw)
  next
    case two
    then show ?thesis
      unfolding ss' using ds
      by (simp add: timestampRegex_def engine_eval oneOf_def js_def isDigit_def del: engine_raw)
  qed
qed


lemma execAll_finds_token:
  assumes m: "m \<noteq> []" "length m \<le> 2" "list_all isDigit m"
    and ss: "length ss = 2" "list_all isDigit ss"
  shows "(i + length u, i + length u + (length m + 5), [1 \<mapsto> m @ 58 # ss])
           \<in> set (execAll timestampRegex i (u @ 91 # m @ 58 # ss @ 93 # post))"
proof (induction "length u" arbitrary: u i rule: less_induct)
  case less
  let ?tok = "91 # m @ 58 # ss @ 93 # post"
  note tok = timestamp_match_token [OF m ss, of _ post]
  show ?case
  proof (cases u)
    case Nil
    show ?thesis
      unfolding Nil by (subst execAll.simps) (simp add: tok)
  next
    case (Cons x u')
    show ?thesis
    proof (cases "regexAt timestampRegex i (u @ ?tok)")
      case None
      have "(Suc i + length u', Suc i + length u' + (length m + 5), [1 \<mapsto> m @ 58 # ss])
           \<in> set (execAll timestampRegex (Suc i) (u' @ ?tok))"
        by (rule less.hyps) (simp add: Cons)
      then show ?thesis
        using None unfolding Cons by (subst execAll.simps) simp
    next
      case (Some r)
      obtain j rest caps' where r: "r = (j, rest, caps')"
        by (cases r)
      from timestamp_match_shape [OF Some [unfolded r]] obtain c w
        where s: "u @ ?tok = c # w @ rest" and j: "j = Suc i + length w" and w: "list_all notOpening w"
        by blast
      from s have eq: "u' @ ?tok = w @ rest"
        unfolding Cons by simp
      have le: "length w \<le> length u'"
      proof (rule ccontr)
        assume "\<not> length w \<le> length u'"
        then have lt: "length u' < length w" by simp
        then have "w ! length u' = (w @ rest) ! length u'"
          by (simp add: nth_append)
        also have "\<dots> = (u' @ ?tok) ! length u'"
          by (simp only: eq)
        also have "\<dots> = 91"
          by simp
        finally have "w ! length u' = 91" .
        moreover from w lt have "notOpening (w ! length u')"
          by (simp add: list_all_length)
        ultimately show False
          by (simp add: notOpening_def)
      qed
      from arg_cong [OF eq, of "drop (length w)"] le
      have rest: "rest = drop (length w) u' @ ?tok"
        by simp
      have shorter: "length rest < length (u @ ?tok)"
        unfolding rest Cons by simp
      have "(j + length (drop (length w) u'), j + length (drop (length w) u') + (length m + 5),
             [1 \<mapsto> m @ 58 # ss])
           \<in> set (execAll timestampRegex j (drop (length w) u' @ ?tok))"
        by (rule less.hyps) (simp add: Cons)
      moreover have "j + length (drop (length w) u') = i + length u"
        using le by (simp add: j Cons)
      ultimately have "(i + length u, i + length u + (length m + 5), [1 \<mapsto> m @ 58 # ss])
           \<in> set (execAll timestampRegex j rest)"
        by (simp add: rest)
      then show ?thesis
        using Some shorter unfolding r by (subst execAll.simps) simp
    qed
  qed
qed

lemma digits_no_colon: "list_all isDigit s \<Longrightarrow> 58 \<notin> set s"
  by (auto simp: list_all_iff isDigit_def)


text \<open>
  Claim C1. For every text with a bracketed token \<^verbatim>\<open>[M:SS]\<close>, \<open>M\<close> of one or two digits and
  \<open>SS\<close> of two, the loop of \<^verbatim>\<open>extractTimestamps\<close> finds a match that starts at the token,
  and the timestamp built from that match has \<open>M * 60 + SS\<close> seconds and the time made
  of the number \<open>M\<close> in decimal, without padding, a colon, and the number \<open>SS\<close> padded
  with zeros to two digits.
\<close>

theorem bracket_timestamp:
  assumes m: "m \<noteq> []" "length m \<le> 2" "list_all isDigit m"
    and ss: "length ss = 2" "list_all isDigit ss"
  shows "\<exists>k < length (extractTimestamps lc (pre @ js ''['' @ m @ js '':'' @ ss @ js '']'' @ post)).
           fst (execAll timestampRegex 0 (pre @ js ''['' @ m @ js '':'' @ ss @ js '']'' @ post) ! k)
             = length pre
         \<and> ts_seconds (extractTimestamps lc (pre @ js ''['' @ m @ js '':'' @ ss @ js '']'' @ post) ! k)
             = Number m * 60 + Number ss
         \<and> ts_time (extractTimestamps lc (pre @ js ''['' @ m @ js '':'' @ ss @ js '']'' @ post) ! k)
             = toString (Number m) @ js '':'' @ padStart 2 48 (toString (Number ss))"
proof -
  define input where "input = pre @ 91 # m @ 58 # ss @ 93 # post"
  have input: "pre @ js ''['' @ m @ js '':'' @ ss @ js '']'' @ post = input"
    by (simp add: input_def js_def)
  define ms where "ms = execAll timestampRegex 0 input"
  have "(0 + length pre, 0 + length pre + (length m + 5), [1 \<mapsto> m @ 58 # ss]) \<in> set ms"
    unfolding ms_def input_def by (rule execAll_finds_token [OF m ss])
  then obtain k where k: "k < length ms"
    and mk: "ms ! k = (length pre, length pre + (length m + 5), [1 \<mapsto> m @ 58 # ss])"
    by (auto simp: in_set_conv_nth)
  have ex: "extractTimestamps lc input = map (timestampOfMatch lc input) ms"
    by (simp add: extractTimestamps_def ms_def input_def)
  have parts: "map Number (split 58 (group [Suc 0 \<mapsto> m @ 58 # ss] (Suc 0))) = [Number m, Number ss]"
    using digits_no_colon [OF m(3)] digits_no_colon [OF ss(2)]
    by (simp add: group_def split_at split_absent)
  have "k < length (extractTimestamps lc input)"
    and "fst (ms ! k) = length pre"
    and "ts_seconds (extractTimestamps lc input ! k) = Number m * 60 + Number ss"
    and "ts_time (extractTimestamps lc input ! k)
           = toString (Number m) @ js '':'' @ padStart 2 48 (toString (Number ss))"
    using k by (simp_all add: ex mk timestampOfMatch_seconds timestampOfMatch_time parts)
  then show ?thesis
    unfolding input ms_def [symmetric] by blast
qed

theorem bracket_timestamp_witness:
  "\<exists>k < length (extractTimestamps exampleLowering (js ''at [1:05] he jabs'')).
      ts_seconds (extractTimestamps exampleLowering (js ''at [1:05] he jabs'') ! k) = 65
    \<and> ts_time (extractTimestamps exampleLowering (js ''at [1:05] he jabs'') ! k) = js ''1:05''"
proof -
  have "js ''1'' \<noteq> []" "length (js ''1'') \<le> 2" "list_all isDigit (js ''1'')"
    "length (js ''05'') = 2" "list_all isDigit (js ''05'')"
    by (simp_all add: js_def isDigit_def)
  from bracket_timestamp [OF this, of exampleLowering "js ''at ''" "js '' he jabs''"]
  show ?thesis
    by (simp add: js_def Number_def padStart_def toString.simps) blast
qed


section \<open>The raw content argument\<close>

text \<open>
  Claim C10. The argument \<^verbatim>\<open>rawContent\<close> of \<^verbatim>\<open>extractFindings\<close> and \<^verbatim>\<open>extractStrengths\<close> has no
  influence on the result: for one list of sections, any two raw contents, and any
  two sources of identifiers at any two states, the two results agree once the
  generated identifiers are erased.
\<close>

theorem rawContent_unused:
  "map eraseId (extractFindings lc uuid1 n1 secs raw1) = map eraseId (extractFindings lc uuid2 n2 secs raw2)
   \<and> map eraseId (extractStrengths lc uuid1 n1 secs raw1) = map eraseId (extractStrengths lc uuid2 n2 secs raw2)"
  by (simp add: extractFindings_def extractStrengths_def deduplicateFindings_def Let_def
      sort_key_map eraseId_simps dedupLoop_map
      collectFindings_eraseId [of lc uuid1 n1 _ uuid2 n2] collectStrengths_eraseId [of lc uuid1 n1 _ uuid2 n2])

end
